theory Spec2Isabelle
  imports Main "HOL-Library.AList"
begin

section \<open>Python values and built-ins used by the server\<close>

text \<open>
  Values decoded from a JSON response body. Python's \<open>None\<close> is \<open>JNull\<close>. A dictionary is
  its item list in insertion order; a lookup takes the first binding of a key. A
  character is a code point below 256 (Latin-1), and white space, case folding, digits
  and \<open>repr\<close> follow Python on that range; strings with other code points and
  floating-point numbers are outside the model.
\<close>

datatype json =
    JNull
  | JBool bool
  | JInt int
  | JStr string
  | JList "json list"
  | JDict "(string \<times> json) list"

text \<open>
  \<open>str.isspace\<close>, which is also \<open>\s\<close> of a pattern and what \<open>strip\<close> removes: space,
  TAB..CR, the separators FS..US, NEL (U+0085) and the no-break space (U+00A0).
\<close>

definition is_space :: "char \<Rightarrow> bool" where
  "is_space c =
     (let n = (of_char c :: nat)
      in n = 32 \<or> (9 \<le> n \<and> n \<le> 13) \<or> (28 \<le> n \<and> n \<le> 31) \<or> n = 133 \<or> n = 160)"

text \<open>\<open>\d\<close>: the decimal digits, which below 256 are 0..9.\<close>

definition is_digit :: "char \<Rightarrow> bool" where
  "is_digit c = (let n = (of_char c :: nat) in 48 \<le> n \<and> n \<le> 57)"

text \<open>
  \<open>str.lower\<close>: the capitals A..Z and U+00C0..U+00DE, the multiplication sign U+00D7
  apart, move up by 32.
\<close>

definition lower_char :: "char \<Rightarrow> char" where
  "lower_char c =
     (let n = (of_char c :: nat)
      in if (65 \<le> n \<and> n \<le> 90) \<or> (192 \<le> n \<and> n \<le> 222 \<and> n \<noteq> 215) then char_of (n + 32)
         else c)"

definition lower :: "string \<Rightarrow> string" where
  "lower s = map lower_char s"

definition strip :: "string \<Rightarrow> string" where
  "strip s = rev (dropWhile is_space (rev (dropWhile is_space s)))"

text \<open>\<open>s.split(c)\<close> for a one-character separator: never empty, keeps empty fields.\<close>

fun split_acc :: "char \<Rightarrow> string \<Rightarrow> string \<Rightarrow> string list" where
  "split_acc c cur [] = [cur]"
| "split_acc c cur (x # xs) =
     (if x = c then cur # split_acc c [] xs else split_acc c (cur @ [x]) xs)"

definition split_on :: "char \<Rightarrow> string \<Rightarrow> string list" where
  "split_on c s = split_acc c [] s"

text \<open>The value of a run of decimal digits.\<close>

definition digit_val :: "char \<Rightarrow> int" where
  "digit_val c = int (of_char c) - 48"

definition int_of_digits :: "string \<Rightarrow> int" where
  "int_of_digits s = foldl (\<lambda>a c. 10 * a + digit_val c) 0 s"

text \<open>\<open>str(n)\<close> for an integer: decimal digits, a minus sign when negative.\<close>

definition digit_char :: "nat \<Rightarrow> char" where
  "digit_char d = ''0123456789abcdef'' ! d"

fun str_nat :: "nat \<Rightarrow> string" where
  "str_nat n = (if n < 10 then [digit_char n] else str_nat (n div 10) @ [digit_char (n mod 10)])"

declare str_nat.simps [simp del]

definition str_int :: "int \<Rightarrow> string" where
  "str_int i = (if i < 0 then CHR ''-'' # str_nat (nat (- i)) else str_nat (nat i))"

text \<open>
  \<open>repr\<close> of a string: double quotes only when the string has a single quote and no
  double quote; the quote and the backslash are escaped, and the characters that are
  not printable (the controls, U+007F..U+00A0 and the soft hyphen U+00AD) are written as
  \<open>\t\<close>, \<open>\n\<close>, \<open>\r\<close> or \<open>\xhh\<close>.
\<close>

definition repr_char :: "char \<Rightarrow> char \<Rightarrow> string" where
  "repr_char q c =
     (let n = (of_char c :: nat) in
      if c = q \<or> c = CHR 0x5C then [CHR 0x5C, c]
      else if n = 9 then [CHR 0x5C, CHR ''t'']
      else if n = 10 then [CHR 0x5C, CHR ''n'']
      else if n = 13 then [CHR 0x5C, CHR ''r'']
      else if n < 32 \<or> (127 \<le> n \<and> n \<le> 160) \<or> n = 173
        then [CHR 0x5C, CHR ''x'', digit_char (n div 16), digit_char (n mod 16)]
      else [c])"

definition repr_str :: "string \<Rightarrow> string" where
  "repr_str s =
     (let q = (if CHR 0x27 \<in> set s \<and> CHR 0x22 \<notin> set s then CHR 0x22 else CHR 0x27)
      in q # concat (map (repr_char q) s) @ [q])"

fun join_str :: "string \<Rightarrow> string list \<Rightarrow> string" where
  "join_str sep [] = []"
| "join_str sep [s] = s"
| "join_str sep (s # t # ss) = s @ sep @ join_str sep (t # ss)"

fun py_repr :: "json \<Rightarrow> string" where
  "py_repr JNull = ''None''"
| "py_repr (JBool b) = (if b then ''True'' else ''False'')"
| "py_repr (JInt n) = str_int n"
| "py_repr (JStr s) = repr_str s"
| "py_repr (JList xs) = ''['' @ join_str '', '' (map py_repr xs) @ '']''"
| "py_repr (JDict kvs) =
     ''{'' @ join_str '', '' (map (\<lambda>(k, v). repr_str k @ '': '' @ py_repr v) kvs) @ ''}''"

text \<open>\<open>str(x)\<close>: a string is itself, anything else is its \<open>repr\<close>.\<close>

definition py_str :: "json \<Rightarrow> string" where
  "py_str j = (case j of JStr s \<Rightarrow> s | _ \<Rightarrow> py_repr j)"

text \<open>
  Exceptions. \<open>HTTPStatusError\<close> carries its message and the response it was raised for;
  every other exception is reduced to its text (for the ones the interpreter raises,
  the name of the class).
\<close>

datatype response = Response (status_error: "string option") (body: "json option")

datatype exn = HTTPStatusError string response | Exception string

text \<open>
  \<open>int(s)\<close> on a run of decimal digits: the interpreter refuses, with \<open>ValueError\<close>, to
  convert more digits than \<open>sys.get_int_max_str_digits()\<close>, which is 4300 unless it has
  been configured otherwise.
\<close>

definition int_max_str_digits :: nat where
  "int_max_str_digits = 4300"

definition int_of_digit_string :: "string \<Rightarrow> exn + int" where
  "int_of_digit_string ds =
     (if int_max_str_digits < length ds then Inl (Exception ''ValueError'')
      else Inr (int_of_digits ds))"

text \<open>
  \<open>int(x)\<close>: an integer is itself, a Boolean is 0 or 1; a string is stripped, may carry a
  sign, and is a run of digits in which single underscores may separate digits (they do
  not count as digits); \<open>None\<close>, lists and dictionaries raise \<open>TypeError\<close>, any other
  string \<open>ValueError\<close>.
\<close>

fun digits_ok :: "string \<Rightarrow> bool" where
  "digits_ok [] = False"
| "digits_ok [c] = is_digit c"
| "digits_ok (c # d # cs) =
     (if is_digit c then
        (if d = CHR ''_'' then digits_ok cs else digits_ok (d # cs))
      else False)"

definition int_of_str :: "string \<Rightarrow> exn + int" where
  "int_of_str s =
     (let t = strip s;
          neg = (t \<noteq> [] \<and> hd t = CHR ''-'');
          r = (if t \<noteq> [] \<and> (hd t = CHR ''-'' \<or> hd t = CHR ''+'') then tl t else t)
      in if digits_ok r
         then (case int_of_digit_string (filter (\<lambda>c. c \<noteq> CHR ''_'') r) of
                 Inl e \<Rightarrow> Inl e
               | Inr n \<Rightarrow> Inr ((if neg then - 1 else 1) * n))
         else Inl (Exception ''ValueError''))"

definition py_int :: "json \<Rightarrow> exn + int" where
  "py_int j =
     (case j of
        JInt n \<Rightarrow> Inr n
      | JBool b \<Rightarrow> Inr (if b then 1 else 0)
      | JStr s \<Rightarrow> int_of_str s
      | _ \<Rightarrow> Inl (Exception ''TypeError''))"

text \<open>\<open>isinstance(x, int)\<close>: \<open>bool\<close> is a subclass of \<open>int\<close>.\<close>

definition isinstance_int :: "json \<Rightarrow> bool" where
  "isinstance_int j = (case j of JInt _ \<Rightarrow> True | JBool _ \<Rightarrow> True | _ \<Rightarrow> False)"

text \<open>\<open>d.get(k, default)\<close> and \<open>k in d\<close> on a dictionary's item list.\<close>

definition dict_get :: "(string \<times> json) list \<Rightarrow> string \<Rightarrow> json \<Rightarrow> json" where
  "dict_get d k dflt = (case map_of d k of Some v \<Rightarrow> v | None \<Rightarrow> dflt)"

definition dict_has :: "(string \<times> json) list \<Rightarrow> string \<Rightarrow> bool" where
  "dict_has d k = (map_of d k \<noteq> None)"

text \<open>
  \<open>for x in v\<close>: a list gives its elements, a dictionary its keys, a string its
  characters; nothing else can be iterated.
\<close>

definition py_iter :: "json \<Rightarrow> exn + json list" where
  "py_iter v =
     (case v of
        JList xs \<Rightarrow> Inr xs
      | JDict kvs \<Rightarrow> Inr (map (\<lambda>kv. JStr (fst kv)) kvs)
      | JStr s \<Rightarrow> Inr (map (\<lambda>c. JStr [c]) s)
      | _ \<Rightarrow> Inl (Exception ''TypeError''))"

text \<open>
  A dictionary key made of a JSON value: lists and dictionaries cannot be hashed, and
  \<open>True\<close> and \<open>False\<close> are the same keys as 1 and 0.
\<close>

definition hash_key :: "json \<Rightarrow> json option" where
  "hash_key j =
     (case j of
        JList _ \<Rightarrow> None
      | JDict _ \<Rightarrow> None
      | JBool b \<Rightarrow> Some (JInt (if b then 1 else 0))
      | _ \<Rightarrow> Some j)"

text \<open>A project identifier or a key: \<open>Union[int, str]\<close>, written into a URL with \<open>str\<close>.\<close>

datatype key = KStr string | KInt int

definition str_key :: "key \<Rightarrow> string" where
  "str_key k = (case k of KStr s \<Rightarrow> s | KInt n \<Rightarrow> str_int n)"

section \<open>Transport\<close>

text \<open>
  The remote API is a function of the requests made so far and the request at hand; it
  answers with a response or the client raises (a connection fault). Every action
  takes the log of requests and returns it extended. The headers are the same on every
  request and are left out. A response knows whether \<open>raise_for_status\<close> raises on it
  (and with which message) and whether its body parses as JSON.
\<close>

datatype request =
    GET string "(string \<times> string) list"
  | POST string json
  | PUT string json

datatype reply = Fault string | Reply response

type_synonym remote = "request list \<Rightarrow> request \<Rightarrow> reply"

type_synonym 'a io = "request list \<Rightarrow> (exn + 'a) \<times> request list"

definition send :: "remote \<Rightarrow> request \<Rightarrow> response io" where
  "send R rq log =
     (case R log rq of
        Fault m \<Rightarrow> (Inl (Exception m), log @ [rq])
      | Reply r \<Rightarrow> (Inr r, log @ [rq]))"

definition raise_for_status :: "response \<Rightarrow> exn + unit" where
  "raise_for_status r =
     (case status_error r of Some m \<Rightarrow> Inl (HTTPStatusError m r) | None \<Rightarrow> Inr ())"

definition response_json :: "response \<Rightarrow> exn + json" where
  "response_json r =
     (case body r of Some j \<Rightarrow> Inr j | None \<Rightarrow> Inl (Exception ''JSONDecodeError''))"

text \<open>
  The three lines every call is made of: send the request, \<open>raise_for_status()\<close>,
  \<open>json()\<close>. The response is kept, since the resolvers raise an \<open>HTTPStatusError\<close> on it.
\<close>

definition request_json :: "remote \<Rightarrow> request \<Rightarrow> (response \<times> json) io" where
  "request_json R rq log =
     (case send R rq log of
        (Inl e, log1) \<Rightarrow> (Inl e, log1)
      | (Inr resp, log1) \<Rightarrow>
          (case raise_for_status resp of
             Inl e \<Rightarrow> (Inl e, log1)
           | Inr _ \<Rightarrow>
               (case response_json resp of
                  Inl e \<Rightarrow> (Inl e, log1)
                | Inr data \<Rightarrow> (Inr (resp, data), log1))))"

text \<open>
  The two handlers every tool ends with. \<open>except httpx.HTTPStatusError as e\<close> puts
  \<open>e.response.json()\<close> under \<open>details\<close>, which raises out of the handler when the body is
  not JSON; \<open>except Exception as e\<close> reports the text alone.
\<close>

definition handle :: "string \<Rightarrow> string \<Rightarrow> exn \<Rightarrow> exn + json" where
  "handle status_prefix other_prefix e =
     (case e of
        HTTPStatusError m r \<Rightarrow>
          (case response_json r of
             Inl e' \<Rightarrow> Inl e'
           | Inr d \<Rightarrow> Inr (JDict [(''error'', JStr (status_prefix @ m)), (''details'', d)]))
      | Exception m \<Rightarrow> Inr (JDict [(''error'', JStr (other_prefix @ m))]))"

text \<open>The configuration: both settings come from the environment and may be unset.\<close>

record config =
  FRESHRELEASE_API_KEY :: "string option"
  FRESHRELEASE_DOMAIN :: "string option"

definition falsy :: "string option \<Rightarrow> bool" where
  "falsy x = (x = None \<or> x = Some [])"

definition not_configured :: "config \<Rightarrow> bool" where
  "not_configured cfg = (falsy (FRESHRELEASE_DOMAIN cfg) \<or> falsy (FRESHRELEASE_API_KEY cfg))"

definition config_error :: json where
  "config_error = JDict [(''error'', JStr ''FRESHRELEASE_DOMAIN or FRESHRELEASE_API_KEY is not set'')]"

definition base_url :: "config \<Rightarrow> string" where
  "base_url cfg = ''https://'' @ (case FRESHRELEASE_DOMAIN cfg of Some d \<Rightarrow> d | None \<Rightarrow> ''None'')"

text \<open>
  Inside a tool a block of code ends in one of three ways: an exception leaves it, the
  tool returns a value, or control goes on with what the block computed.
\<close>

datatype 'a flow = Raise exn | Return json | Continue 'a

definition handle_flow :: "string \<Rightarrow> string \<Rightarrow> exn \<Rightarrow> 'a flow" where
  "handle_flow status_prefix other_prefix e =
     (case handle status_prefix other_prefix e of Inl e' \<Rightarrow> Raise e' | Inr j \<Rightarrow> Return j)"

definition quoted :: "string \<Rightarrow> string" where
  "quoted s = CHR 0x27 # s @ [CHR 0x27]"

section \<open>Key-to-id resolvers and \<open>fr_link_testcase_issues\<close>\<close>

fun issue_ids_loop :: "remote \<Rightarrow> string \<Rightarrow> key \<Rightarrow> key list \<Rightarrow> int list \<Rightarrow> int list io" where
  "issue_ids_loop R base project_identifier [] resolved log = (Inr resolved, log)"
| "issue_ids_loop R base project_identifier (k # ks) resolved log =
     (case request_json R
             (GET (base @ ''/'' @ str_key project_identifier @ ''/issues/'' @ str_key k) []) log of
        (Inl e, log1) \<Rightarrow> (Inl e, log1)
      | (Inr (resp, data), log1) \<Rightarrow>
          (case data of
             JDict d \<Rightarrow>
               if dict_has d ''id'' then
                 (case py_int (dict_get d ''id'' JNull) of
                    Inl e \<Rightarrow> (Inl e, log1)
                  | Inr n \<Rightarrow> issue_ids_loop R base project_identifier ks (resolved @ [n]) log1)
               else (Inl (HTTPStatusError ''Unexpected issue response structure'' resp), log1)
           | _ \<Rightarrow> (Inl (HTTPStatusError ''Unexpected issue response structure'' resp), log1)))"

definition issue_ids_from_keys :: "remote \<Rightarrow> string \<Rightarrow> key \<Rightarrow> key list \<Rightarrow> int list io" where
  "issue_ids_from_keys R base project_identifier issue_keys =
     issue_ids_loop R base project_identifier issue_keys []"

definition testcase_id_from_key :: "remote \<Rightarrow> string \<Rightarrow> key \<Rightarrow> key \<Rightarrow> int io" where
  "testcase_id_from_key R base project_identifier test_case_key log =
     (case request_json R
             (GET (base @ ''/'' @ str_key project_identifier @ ''/test_cases/'' @ str_key test_case_key) [])
             log of
        (Inl e, log1) \<Rightarrow> (Inl e, log1)
      | (Inr (resp, data), log1) \<Rightarrow>
          (case data of
             JDict d \<Rightarrow>
               if dict_has d ''id'' then (py_int (dict_get d ''id'' JNull), log1)
               else (Inl (HTTPStatusError ''Unexpected test case response structure'' resp), log1)
           | _ \<Rightarrow> (Inl (HTTPStatusError ''Unexpected test case response structure'' resp), log1)))"

text \<open>The loop of \<open>fr_link_testcase_issues\<close> over the test-case keys.\<close>

fun testcase_ids_loop :: "remote \<Rightarrow> string \<Rightarrow> key \<Rightarrow> key list \<Rightarrow> int list \<Rightarrow> int list io" where
  "testcase_ids_loop R base project_identifier [] resolved log = (Inr resolved, log)"
| "testcase_ids_loop R base project_identifier (k # ks) resolved log =
     (case testcase_id_from_key R base project_identifier k log of
        (Inl e, log1) \<Rightarrow> (Inl e, log1)
      | (Inr n, log1) \<Rightarrow> testcase_ids_loop R base project_identifier ks (resolved @ [n]) log1)"

text \<open>The \<open>try\<close> block of \<open>fr_link_testcase_issues\<close>: both passes, then the PUT.\<close>

definition link_try :: "remote \<Rightarrow> string \<Rightarrow> key \<Rightarrow> key list \<Rightarrow> key list \<Rightarrow> json io" where
  "link_try R base project_identifier testcase_keys issue_keys log =
     (case testcase_ids_loop R base project_identifier testcase_keys [] log of
        (Inl e, log1) \<Rightarrow> (Inl e, log1)
      | (Inr resolved_testcase_ids, log1) \<Rightarrow>
          (case issue_ids_from_keys R base project_identifier issue_keys log1 of
             (Inl e, log2) \<Rightarrow> (Inl e, log2)
           | (Inr resolved_issue_ids, log2) \<Rightarrow>
               (let url = base @ ''/'' @ str_key project_identifier @ ''/test_cases/update_many'';
                    payload = JDict [(''ids'', JList (map JInt resolved_testcase_ids)),
                                     (''test_case'',
                                      JDict [(''issue_ids'', JList (map JInt resolved_issue_ids))])]
                in case request_json R (PUT url payload) log2 of
                     (Inl e, log3) \<Rightarrow> (Inl e, log3)
                   | (Inr (response, j), log3) \<Rightarrow> (Inr j, log3))))"

definition fr_link_testcase_issues ::
  "config \<Rightarrow> remote \<Rightarrow> key \<Rightarrow> key list \<Rightarrow> key list \<Rightarrow> json io" where
  "fr_link_testcase_issues cfg R project_identifier testcase_keys issue_keys log =
     (if not_configured cfg then (Inr config_error, log)
      else
        (case link_try R (base_url cfg) project_identifier testcase_keys issue_keys log of
           (Inl e, log1) \<Rightarrow>
             (handle ''Failed to bulk update testcases: '' ''An unexpected error occurred: '' e, log1)
         | (Inr j, log1) \<Rightarrow> (Inr j, log1)))"

section \<open>Section-hierarchy resolver\<close>

text \<open>
  \<open>hierarchy\<close> maps a parent id to the list of its children. Its keys are hashed JSON
  values; \<open>hierarchy.get(section_id, [])\<close> reads it.
\<close>

type_synonym hierarchy = "(json \<times> json list) list"

definition hierarchy_get :: "hierarchy \<Rightarrow> json \<Rightarrow> json list" where
  "hierarchy_get hierarchy k =
     (case hash_key k of
        Some k' \<Rightarrow> (case map_of hierarchy k' of Some cs \<Rightarrow> cs | None \<Rightarrow> [])
      | None \<Rightarrow> [])"

text \<open>
  The loop that fills \<open>hierarchy\<close> and \<open>root_sections\<close>. A section that is not a dictionary
  has no \<open>get\<close>; a parent id that is a list or a dictionary cannot be a key.
\<close>

fun build_hierarchy :: "json list \<Rightarrow> hierarchy \<Rightarrow> json list \<Rightarrow> exn + hierarchy \<times> json list" where
  "build_hierarchy [] hierarchy root_sections = Inr (hierarchy, root_sections)"
| "build_hierarchy (section # rest) hierarchy root_sections =
     (case section of
        JDict d \<Rightarrow>
          (let parent_id = dict_get d ''parent_id'' JNull in
           if parent_id = JNull then build_hierarchy rest hierarchy (root_sections @ [section])
           else
             (case hash_key parent_id of
                None \<Rightarrow> Inl (Exception ''TypeError'')
              | Some k \<Rightarrow>
                  build_hierarchy rest
                    (AList.update k (hierarchy_get hierarchy k @ [section]) hierarchy)
                    root_sections))
      | _ \<Rightarrow> Inl (Exception ''AttributeError''))"

text \<open>The list comprehension of the empty-path case.\<close>

fun ids_of :: "json list \<Rightarrow> exn + json list" where
  "ids_of [] = Inr []"
| "ids_of (s # ss) =
     (case s of
        JDict d \<Rightarrow>
          (case ids_of ss of
             Inl e \<Rightarrow> Inl e
           | Inr r \<Rightarrow>
               Inr (if isinstance_int (dict_get d ''id'' JNull) then dict_get d ''id'' JNull # r else r))
      | _ \<Rightarrow> Inl (Exception ''AttributeError''))"

definition section_name :: "(string \<times> json) list \<Rightarrow> string" where
  "section_name d = lower (strip (py_str (dict_get d ''name'' (JStr []))))"

text \<open>
  \<open>find_sections_by_path\<close>, and its loop over \<open>sections_list\<close> with the path split into
  its head \<open>p\<close> and the rest \<open>ps\<close>; \<open>matching\<close> is \<open>matching_sections\<close> so far.
\<close>

fun find_sections_by_path :: "hierarchy \<Rightarrow> json list \<Rightarrow> string list \<Rightarrow> exn + json list"
and find_matching ::
  "hierarchy \<Rightarrow> string \<Rightarrow> string list \<Rightarrow> json list \<Rightarrow> json list \<Rightarrow> exn + json list"
where
  "find_sections_by_path hierarchy sections_list [] = ids_of sections_list"
| "find_sections_by_path hierarchy sections_list (p # ps) =
     find_matching hierarchy p ps sections_list []"
| "find_matching hierarchy p ps [] matching = Inr matching"
| "find_matching hierarchy p ps (section # rest) matching =
     (case section of
        JDict d \<Rightarrow>
          if section_name d = lower p then
            (let section_id = dict_get d ''id'' JNull in
             if isinstance_int section_id then
               if ps = [] then find_matching hierarchy p ps rest (matching @ [section_id])
               else
                 (case find_sections_by_path hierarchy (hierarchy_get hierarchy section_id) ps of
                    Inl e \<Rightarrow> Inl e
                  | Inr child_matches \<Rightarrow>
                      find_matching hierarchy p ps rest (matching @ child_matches))
             else find_matching hierarchy p ps rest matching)
          else find_matching hierarchy p ps rest matching
      | _ \<Rightarrow> Inl (Exception ''AttributeError''))"

definition resolve_section_hierarchy_to_ids ::
  "remote \<Rightarrow> string \<Rightarrow> key \<Rightarrow> string \<Rightarrow> json list io" where
  "resolve_section_hierarchy_to_ids R base project_identifier section_path log =
     (let path_parts = map strip (split_on CHR ''>'' section_path) in
      if path_parts = [] \<or> hd path_parts = [] then (Inr [], log)
      else
        (case request_json R (GET (base @ ''/'' @ str_key project_identifier @ ''/sections'') []) log of
           (Inl e, log1) \<Rightarrow> (Inl e, log1)
         | (Inr (resp, sections), log1) \<Rightarrow>
             (case sections of
                JList secs \<Rightarrow>
                  (case build_hierarchy secs [] [] of
                     Inl e \<Rightarrow> (Inl e, log1)
                   | Inr (hierarchy, root_sections) \<Rightarrow>
                       (find_sections_by_path hierarchy root_sections path_parts, log1))
              | _ \<Rightarrow>
                  (Inl (HTTPStatusError ''Unexpected sections response structure'' resp), log1))))"

text \<open>
  The same recursion with the call stack made explicit: every call of
  \<open>find_sections_by_path\<close> takes one frame from \<open>depth\<close>, and \<open>None\<close> is a call that
  found no frame left.
\<close>

fun find_sections_depth ::
  "nat \<Rightarrow> hierarchy \<Rightarrow> json list \<Rightarrow> string list \<Rightarrow> (exn + json list) option"
and find_matching_depth ::
  "nat \<Rightarrow> hierarchy \<Rightarrow> string \<Rightarrow> string list \<Rightarrow> json list \<Rightarrow> json list \<Rightarrow> (exn + json list) option"
where
  "find_sections_depth 0 hierarchy sections_list remaining_path = None"
| "find_sections_depth (Suc depth) hierarchy sections_list [] = Some (ids_of sections_list)"
| "find_sections_depth (Suc depth) hierarchy sections_list (p # ps) =
     find_matching_depth depth hierarchy p ps sections_list []"
| "find_matching_depth depth hierarchy p ps [] matching = Some (Inr matching)"
| "find_matching_depth depth hierarchy p ps (section # rest) matching =
     (case section of
        JDict d \<Rightarrow>
          if section_name d = lower p then
            (let section_id = dict_get d ''id'' JNull in
             if isinstance_int section_id then
               if ps = [] then find_matching_depth depth hierarchy p ps rest (matching @ [section_id])
               else
                 (case find_sections_depth depth hierarchy (hierarchy_get hierarchy section_id) ps of
                    None \<Rightarrow> None
                  | Some (Inl e) \<Rightarrow> Some (Inl e)
                  | Some (Inr child_matches) \<Rightarrow>
                      find_matching_depth depth hierarchy p ps rest (matching @ child_matches))
             else find_matching_depth depth hierarchy p ps rest matching)
          else find_matching_depth depth hierarchy p ps rest matching
      | _ \<Rightarrow> Some (Inl (Exception ''AttributeError'')))"

section \<open>\<open>fr_add_testcases_to_testrun\<close>\<close>

text \<open>
  The loop over \<open>test_case_keys\<close>: each key has its own \<open>try\<close>, whose handlers return
  from the tool.
\<close>

fun resolve_test_case_keys ::
  "remote \<Rightarrow> string \<Rightarrow> key \<Rightarrow> key list \<Rightarrow> string list \<Rightarrow> request list \<Rightarrow> string list flow \<times> request list"
where
  "resolve_test_case_keys R base project_identifier [] resolved log = (Continue resolved, log)"
| "resolve_test_case_keys R base project_identifier (k # ks) resolved log =
     (case request_json R
             (GET (base @ ''/'' @ str_key project_identifier @ ''/test_cases/'' @ str_key k) []) log of
        (Inl e, log1) \<Rightarrow>
          (handle_flow
             (''Failed to resolve test case key '' @ quoted (str_key k) @ '': '')
             (''An unexpected error occurred while resolving test case key '' @ quoted (str_key k) @ '': '')
             e, log1)
      | (Inr (tc_resp, tc_data), log1) \<Rightarrow>
          (case tc_data of
             JDict d \<Rightarrow>
               if dict_has d ''id'' then
                 resolve_test_case_keys R base project_identifier ks
                   (resolved @ [py_str (dict_get d ''id'' JNull)]) log1
               else
                 (Return (JDict [(''error'', JStr (''Unexpected test case response structure for key ''
                                                    @ quoted (str_key k))),
                                 (''details'', tc_data)]), log1)
           | _ \<Rightarrow>
               (Return (JDict [(''error'', JStr (''Unexpected test case response structure for key ''
                                                  @ quoted (str_key k))),
                               (''details'', tc_data)]), log1)))"

text \<open>
  The loop over \<open>section_hierarchy_paths\<close>; the tool skips it when the list is absent or
  empty, which is the loop over the empty list.
\<close>

fun resolve_section_paths ::
  "remote \<Rightarrow> string \<Rightarrow> key \<Rightarrow> string list \<Rightarrow> string list \<Rightarrow> request list \<Rightarrow> string list flow \<times> request list"
where
  "resolve_section_paths R base project_identifier [] resolved log = (Continue resolved, log)"
| "resolve_section_paths R base project_identifier (path # paths) resolved log =
     (case resolve_section_hierarchy_to_ids R base project_identifier path log of
        (Inl e, log1) \<Rightarrow>
          (handle_flow
             (''Failed to resolve section hierarchy path '' @ quoted path @ '': '')
             (''An unexpected error occurred while resolving section hierarchy path '' @ quoted path @ '': '')
             e, log1)
      | (Inr section_ids_from_path, log1) \<Rightarrow>
          resolve_section_paths R base project_identifier paths
            (resolved @ map py_str section_ids_from_path) log1)"

text \<open>\<open>x or []\<close> for an optional list.\<close>

definition or_empty :: "'a list option \<Rightarrow> 'a list" where
  "or_empty x = (case x of Some xs \<Rightarrow> xs | None \<Rightarrow> [])"

definition testrun_payload ::
  "json list option \<Rightarrow> string list \<Rightarrow> string list \<Rightarrow> key list option \<Rightarrow> key list option \<Rightarrow> json" where
  "testrun_payload filter_rule resolved_test_case_ids resolved_section_subtree_ids
       section_subtree_ids section_ids =
     (let all_section_subtree_ids =
            resolved_section_subtree_ids @ map str_key (or_empty section_subtree_ids)
      in JDict [(''filter_rule'', JList (or_empty filter_rule)),
                (''test_case_ids'', JList (map JStr resolved_test_case_ids)),
                (''section_subtree_ids'', JList (map JStr all_section_subtree_ids)),
                (''section_ids'', JList (map JStr (map str_key (or_empty section_ids))))])"

definition fr_add_testcases_to_testrun ::
  "config \<Rightarrow> remote \<Rightarrow> key \<Rightarrow> key \<Rightarrow> key list \<Rightarrow> string list option \<Rightarrow> key list option \<Rightarrow>
   key list option \<Rightarrow> json list option \<Rightarrow> json io" where
  "fr_add_testcases_to_testrun cfg R project_identifier test_run_id test_case_keys
       section_hierarchy_paths section_subtree_ids section_ids filter_rule log =
     (if not_configured cfg then (Inr config_error, log)
      else
        (let base = base_url cfg in
         case resolve_test_case_keys R base project_identifier test_case_keys [] log of
           (Raise e, log1) \<Rightarrow> (Inl e, log1)
         | (Return j, log1) \<Rightarrow> (Inr j, log1)
         | (Continue resolved_test_case_ids, log1) \<Rightarrow>
             (case resolve_section_paths R base project_identifier
                     (or_empty section_hierarchy_paths) [] log1 of
                (Raise e, log2) \<Rightarrow> (Inl e, log2)
              | (Return j, log2) \<Rightarrow> (Inr j, log2)
              | (Continue resolved_section_subtree_ids, log2) \<Rightarrow>
                  (let payload = testrun_payload filter_rule resolved_test_case_ids
                                   resolved_section_subtree_ids section_subtree_ids section_ids;
                       url = base @ ''/'' @ str_key project_identifier @ ''/test_runs/''
                             @ str_key test_run_id @ ''/test_cases''
                   in case request_json R (PUT url payload) log2 of
                        (Inl e, log3) \<Rightarrow>
                          (handle ''Failed to add test cases to test run: ''
                                  ''An unexpected error occurred: '' e, log3)
                      | (Inr (response, j), log3) \<Rightarrow> (Inr j, log3)))))"

section \<open>\<open>fr_get_issue_type_by_name\<close>\<close>

definition item_name :: "(string \<times> json) list \<Rightarrow> string" where
  "item_name d = lower (strip (py_str (dict_get d ''name'' (JStr []))))"

text \<open>The loop over the listing: the first item whose name is the target, if any.\<close>

fun first_issue_type :: "json list \<Rightarrow> string \<Rightarrow> exn + json option" where
  "first_issue_type [] target = Inr None"
| "first_issue_type (item # rest) target =
     (case item of
        JDict d \<Rightarrow> if item_name d = target then Inr (Some item) else first_issue_type rest target
      | _ \<Rightarrow> Inl (Exception ''AttributeError''))"

definition get_issue_type_try :: "remote \<Rightarrow> string \<Rightarrow> string \<Rightarrow> json io" where
  "get_issue_type_try R url issue_type_name log =
     (case request_json R (GET url []) log of
        (Inl e, log1) \<Rightarrow> (Inl e, log1)
      | (Inr (response, data), log1) \<Rightarrow>
          (case data of
             JList items \<Rightarrow>
               (case first_issue_type items (lower (strip issue_type_name)) of
                  Inl e \<Rightarrow> (Inl e, log1)
                | Inr (Some item) \<Rightarrow> (Inr item, log1)
                | Inr None \<Rightarrow>
                    (Inr (JDict [(''error'', JStr (''Issue type '' @ quoted issue_type_name
                                                   @ '' not found''))]), log1))
           | _ \<Rightarrow>
               (Inr (JDict [(''error'', JStr ''Unexpected response structure for issue types''),
                            (''details'', data)]), log1)))"

definition fr_get_issue_type_by_name :: "config \<Rightarrow> remote \<Rightarrow> key \<Rightarrow> string \<Rightarrow> json io" where
  "fr_get_issue_type_by_name cfg R project_identifier issue_type_name log =
     (if not_configured cfg then (Inr config_error, log)
      else
        (let url = base_url cfg @ ''/'' @ str_key project_identifier @ ''/issue_types'' in
         case get_issue_type_try R url issue_type_name log of
           (Inl e, log1) \<Rightarrow>
             (handle ''Failed to fetch issue types: '' ''An unexpected error occurred: '' e, log1)
         | (Inr j, log1) \<Rightarrow> (Inr j, log1)))"

section \<open>\<open>fr_create_task\<close>\<close>

datatype TASK_STATUS = TODO | IN_PROGRESS | DONE

definition TASK_STATUS_value :: "TASK_STATUS \<Rightarrow> string" where
  "TASK_STATUS_value t = (case t of TODO \<Rightarrow> ''todo'' | IN_PROGRESS \<Rightarrow> ''in_progress'' | DONE \<Rightarrow> ''done'')"

text \<open>\<open>Optional[Union[str, TASK_STATUS]]\<close>: a plain string or a member of the enumeration.\<close>

datatype status_arg = StatusStr string | StatusEnum TASK_STATUS

record task_args =
  project_identifier :: key
  title :: string
  description :: "string option"
  assignee_id :: "int option"
  status :: "status_arg option"
  due_date :: "string option"
  issue_type_name :: "string option"
  user :: "string option"
  additional_fields :: "(string \<times> json) list option"

text \<open>\<open>status.value if isinstance(status, TASK_STATUS) else status\<close>.\<close>

definition status_value :: "status_arg \<Rightarrow> string" where
  "status_value s = (case s of StatusEnum t \<Rightarrow> TASK_STATUS_value t | StatusStr x \<Rightarrow> x)"

text \<open>The request body is a dictionary: assignment overwrites a key in place or appends it.\<close>

type_synonym payload = "(string \<times> json) list"

definition core_payload :: "task_args \<Rightarrow> payload" where
  "core_payload a =
     (let payload = [(''title'', JStr (title a))];
          payload = (case description a of
                       Some d \<Rightarrow> AList.update ''description'' (JStr d) payload
                     | None \<Rightarrow> payload);
          payload = (case assignee_id a of
                       Some n \<Rightarrow> AList.update ''assignee_id'' (JInt n) payload
                     | None \<Rightarrow> payload);
          payload = (case status a of
                       Some s \<Rightarrow> AList.update ''status'' (JStr (status_value s)) payload
                     | None \<Rightarrow> payload);
          payload = (case due_date a of
                       Some d \<Rightarrow> AList.update ''due_date'' (JStr d) payload
                     | None \<Rightarrow> payload)
      in payload)"

definition protected_keys :: "string set" where
  "protected_keys =
     {''title'', ''description'', ''assignee_id'', ''status'', ''due_date'', ''issue_type_id''}"

text \<open>The merge of \<open>additional_fields\<close>: skipped when absent or empty.\<close>

definition merge_step :: "payload \<Rightarrow> string \<times> json \<Rightarrow> payload" where
  "merge_step payload kv =
     (if fst kv \<in> protected_keys then payload else AList.update (fst kv) (snd kv) payload)"

definition merge_additional :: "payload \<Rightarrow> (string \<times> json) list option \<Rightarrow> payload" where
  "merge_additional payload extra =
     (case extra of
        None \<Rightarrow> payload
      | Some items \<Rightarrow> if items = [] then payload else foldl merge_step payload items)"

text \<open>The loop over the issue types: \<open>matched_id\<close>, still \<open>None\<close> when nothing matched.\<close>

fun match_issue_type :: "json list \<Rightarrow> string \<Rightarrow> exn + json" where
  "match_issue_type [] target = Inr JNull"
| "match_issue_type (t # ts) target =
     (case t of
        JDict d \<Rightarrow>
          if item_name d = target then Inr (dict_get d ''id'' JNull)
          else match_issue_type ts target
      | _ \<Rightarrow> Inl (Exception ''AttributeError''))"

definition resolve_issue_type ::
  "remote \<Rightarrow> string \<Rightarrow> key \<Rightarrow> string \<Rightarrow> payload \<Rightarrow> request list \<Rightarrow> payload flow \<times> request list" where
  "resolve_issue_type R base proj name_to_resolve payload log =
     (if name_to_resolve = [] then (Continue payload, log)
      else
        (case request_json R (GET (base @ ''/'' @ str_key proj @ ''/project_issue_types'') []) log of
           (Inl e, log1) \<Rightarrow>
             (handle_flow ''Failed to resolve issue type: ''
                ''An unexpected error occurred while resolving issue type: '' e, log1)
         | (Inr (it_resp, it_data), log1) \<Rightarrow>
             (let types_list = (case it_data of
                                  JDict d \<Rightarrow> dict_get d ''issue_types'' (JList [])
                                | _ \<Rightarrow> JList []);
                  target = lower (strip name_to_resolve)
              in case py_iter types_list of
                   Inl e \<Rightarrow>
                     (handle_flow ''Failed to resolve issue type: ''
                        ''An unexpected error occurred while resolving issue type: '' e, log1)
                 | Inr ts \<Rightarrow>
                     (case match_issue_type ts target of
                        Inl e \<Rightarrow>
                          (handle_flow ''Failed to resolve issue type: ''
                             ''An unexpected error occurred while resolving issue type: '' e, log1)
                      | Inr matched_id \<Rightarrow>
                          if matched_id = JNull then
                            (Return (JDict [(''error'', JStr (''Issue type '' @ quoted name_to_resolve
                                                               @ '' not found'')),
                                            (''details'', it_data)]), log1)
                          else (Continue (AList.update ''issue_type_id'' matched_id payload), log1)))))"

text \<open>The two loops of the user resolver, each stopping at its first match.\<close>

fun first_email_match :: "json list \<Rightarrow> string \<Rightarrow> exn + json" where
  "first_email_match [] lowered = Inr JNull"
| "first_email_match (item # rest) lowered =
     (case item of
        JDict d \<Rightarrow>
          (let email = lower (strip (py_str (dict_get d ''email'' (JStr [])))) in
           if email \<noteq> [] \<and> email = lowered then Inr (dict_get d ''id'' JNull)
           else first_email_match rest lowered)
      | _ \<Rightarrow> Inl (Exception ''AttributeError''))"

fun first_name_match :: "json list \<Rightarrow> string \<Rightarrow> exn + json" where
  "first_name_match [] lowered = Inr JNull"
| "first_name_match (item # rest) lowered =
     (case item of
        JDict d \<Rightarrow>
          (let name_val = lower (strip (py_str (dict_get d ''name'' (JStr [])))) in
           if name_val \<noteq> [] \<and> name_val = lowered then Inr (dict_get d ''id'' JNull)
           else first_name_match rest lowered)
      | _ \<Rightarrow> Inl (Exception ''AttributeError''))"

text \<open>\<open>chosen_id\<close> after the three tiers; \<open>None\<close> when the answer is not a non-empty list.\<close>

definition choose_user :: "json \<Rightarrow> string \<Rightarrow> exn + json" where
  "choose_user users_data usr =
     (case users_data of
        JList (u # us) \<Rightarrow>
          (let lowered = lower (strip usr) in
           case first_email_match (u # us) lowered of
             Inl e \<Rightarrow> Inl e
           | Inr by_email \<Rightarrow>
               (case (if by_email = JNull then first_name_match (u # us) lowered else Inr by_email) of
                  Inl e \<Rightarrow> Inl e
                | Inr by_name \<Rightarrow>
                    if by_name = JNull then
                      (case u of
                         JDict d \<Rightarrow> Inr (dict_get d ''id'' JNull)
                       | _ \<Rightarrow> Inl (Exception ''AttributeError''))
                    else Inr by_name))
      | _ \<Rightarrow> Inr JNull)"

definition resolve_assignee ::
  "remote \<Rightarrow> string \<Rightarrow> key \<Rightarrow> string option \<Rightarrow> payload \<Rightarrow> request list \<Rightarrow> payload flow \<times> request list" where
  "resolve_assignee R base proj usr_opt payload log =
     (case usr_opt of
        None \<Rightarrow> (Continue payload, log)
      | Some usr \<Rightarrow>
          if map_of payload ''assignee_id'' \<noteq> None \<or> usr = [] then (Continue payload, log)
          else
            (case request_json R (GET (base @ ''/'' @ str_key proj @ ''/users'') [(''q'', usr)]) log of
               (Inl e, log1) \<Rightarrow>
                 (handle_flow ''Failed to resolve user: ''
                    ''An unexpected error occurred while resolving user: '' e, log1)
             | (Inr (u_resp, users_data), log1) \<Rightarrow>
                 (case choose_user users_data usr of
                    Inl e \<Rightarrow>
                      (handle_flow ''Failed to resolve user: ''
                         ''An unexpected error occurred while resolving user: '' e, log1)
                  | Inr chosen_id \<Rightarrow>
                      if chosen_id = JNull then
                        (Return (JDict [(''error'', JStr (''No users found matching '' @ quoted usr))]),
                         log1)
                      else (Continue (AList.update ''assignee_id'' chosen_id payload), log1))))"

definition name_to_resolve :: "task_args \<Rightarrow> string" where
  "name_to_resolve a =
     (case issue_type_name a of Some n \<Rightarrow> if n = [] then ''task'' else n | None \<Rightarrow> ''task'')"

definition fr_create_task :: "config \<Rightarrow> remote \<Rightarrow> task_args \<Rightarrow> json io" where
  "fr_create_task cfg R a log =
     (if not_configured cfg then (Inr config_error, log)
      else
        (let base = base_url cfg;
             url = base @ ''/'' @ str_key (project_identifier a) @ ''/issues'';
             payload = merge_additional (core_payload a) (additional_fields a)
         in case resolve_issue_type R base (project_identifier a) (name_to_resolve a) payload log of
              (Raise e, log1) \<Rightarrow> (Inl e, log1)
            | (Return j, log1) \<Rightarrow> (Inr j, log1)
            | (Continue payload1, log1) \<Rightarrow>
                (case resolve_assignee R base (project_identifier a) (user a) payload1 log1 of
                   (Raise e, log2) \<Rightarrow> (Inl e, log2)
                 | (Return j, log2) \<Rightarrow> (Inr j, log2)
                 | (Continue payload2, log2) \<Rightarrow>
                     (case request_json R (POST url (JDict payload2)) log2 of
                        (Inl e, log3) \<Rightarrow>
                          (handle ''Failed to create task: '' ''An unexpected error occurred: '' e, log3)
                      | (Inr (response, j), log3) \<Rightarrow> (Inr j, log3)))))"

section \<open>Pagination decoder: \<open>parse_link_header\<close>\<close>












section \<open>Notions used to state the properties\<close>

text \<open>A request that only reads.\<close>

definition is_get :: "request \<Rightarrow> bool" where
  "is_get rq = (case rq of GET _ _ \<Rightarrow> True | _ \<Rightarrow> False)"

text \<open>
  A configured server, a remote that knows one issue type and one user, and a task with
  nothing but a title: the inputs of the worked examples.
\<close>

definition example_config :: config where
  "example_config = \<lparr>FRESHRELEASE_API_KEY = Some ''k'', FRESHRELEASE_DOMAIN = Some ''d''\<rparr>"

definition ok_response :: "json \<Rightarrow> reply" where
  "ok_response j = Reply (Response None (Some j))"

definition example_users :: json where
  "example_users = JList [JDict [(''id'', JInt 1), (''email'', JStr ''bob@x.com''), (''name'', JStr ''Bob'')]]"

definition example_issue_types :: json where
  "example_issue_types =
     JDict [(''issue_types'', JList [JDict [(''id'', JInt 3), (''name'', JStr ''Task'')]])]"

definition example_remote :: remote where
  "example_remote log rq =
     (case rq of
        GET url params \<Rightarrow>
          if url = ''https://d/P/project_issue_types'' then ok_response example_issue_types
          else if url = ''https://d/P/users'' then ok_response example_users
          else Reply (Response (Some ''404 Not Found'') None)
      | _ \<Rightarrow> ok_response (JDict [(''ok'', JBool True)]))"

definition example_task :: task_args where
  "example_task =
     \<lparr>project_identifier = KStr ''P'', title = ''t'', description = None, assignee_id = None,
      status = None, due_date = None, issue_type_name = None, user = None,
      additional_fields = None\<rparr>"


definition unsupplied_task :: task_args where
  "unsupplied_task =
     example_task\<lparr>user := Some ''bob'',
                  additional_fields := Some [(''issue_type_id'', JInt 5), (''assignee_id'', JInt 9),
                                             (''status'', JStr ''blocked'')]\<rparr>"

definition status_only_task :: task_args where
  "status_only_task = example_task\<lparr>additional_fields := Some [(''status'', JStr ''blocked'')]\<rparr>"

text \<open>A remote whose issue-type listing is a list with the one type \<open>Task\<close>.\<close>

definition listing_remote :: remote where
  "listing_remote log rq = ok_response (JList [JDict [(''id'', JInt 3), (''name'', JStr ''Task'')]])"

definition epic_task :: task_args where
  "epic_task = example_task\<lparr>issue_type_name := Some ''epic''\<rparr>"

text \<open>A user of the data model: a dictionary that carries an id.\<close>

definition user_id :: "json \<Rightarrow> json" where
  "user_id u = (case u of JDict d \<Rightarrow> dict_get d ''id'' JNull | _ \<Rightarrow> JNull)"

definition is_user :: "json \<Rightarrow> bool" where
  "is_user u = (case u of JDict d \<Rightarrow> dict_get d ''id'' JNull \<noteq> JNull | _ \<Rightarrow> False)"

definition field_text :: "string \<Rightarrow> json \<Rightarrow> string" where
  "field_text k u = (case u of JDict d \<Rightarrow> py_str (dict_get d k (JStr [])) | _ \<Rightarrow> [])"

text \<open>The comparison the code makes: both sides stripped and lowered, an empty field never matching.\<close>

definition field_matches :: "string \<Rightarrow> string \<Rightarrow> json \<Rightarrow> bool" where
  "field_matches k q u = (lower (strip (field_text k u)) \<noteq> [] \<and> lower (strip (field_text k u)) = lower (strip q))"

definition tie_break :: "json list \<Rightarrow> string \<Rightarrow> json" where
  "tie_break us q =
     (case find (field_matches ''email'' q) us of
        Some u \<Rightarrow> user_id u
      | None \<Rightarrow>
          (case find (field_matches ''name'' q) us of
             Some u \<Rightarrow> user_id u
           | None \<Rightarrow> user_id (hd us)))"

text \<open>The tie-break as the specification words it: equality up to case only.\<close>

definition equals_ignoring_case :: "string \<Rightarrow> string \<Rightarrow> bool" where
  "equals_ignoring_case s t = (lower s = lower t)"

definition tie_break_as_stated :: "json list \<Rightarrow> string \<Rightarrow> json" where
  "tie_break_as_stated us q =
     (case find (\<lambda>u. equals_ignoring_case (field_text ''email'' u) q) us of
        Some u \<Rightarrow> user_id u
      | None \<Rightarrow>
          (case find (\<lambda>u. equals_ignoring_case (field_text ''name'' u) q) us of
             Some u \<Rightarrow> user_id u
           | None \<Rightarrow> user_id (hd us)))"

text \<open>Two users, to be searched with a query that ends in a blank.\<close>

definition two_users :: "json list" where
  "two_users =
     [JDict [(''id'', JInt 1), (''email'', JStr ''al@x.com''), (''name'', JStr ''Al'')],
      JDict [(''id'', JInt 2), (''email'', JStr ''bob@x.com''), (''name'', JStr ''Bob'')]]"

text \<open>
  Search results outside the data model: a user without an id, with the remote that
  answers the user search with it and a task that names the user; and a user whose id is
  null, followed by a user whose name is the first one's e-mail.
\<close>

definition idless_users :: "json list" where
  "idless_users = [JDict [(''email'', JStr ''bob@x.com''), (''name'', JStr ''Bob'')]]"

definition idless_remote :: remote where
  "idless_remote log rq =
     (case rq of
        GET url params \<Rightarrow>
          if url = ''https://d/P/project_issue_types'' then ok_response example_issue_types
          else if url = ''https://d/P/users'' then ok_response (JList idless_users)
          else Reply (Response (Some ''404 Not Found'') None)
      | _ \<Rightarrow> ok_response (JDict [(''ok'', JBool True)]))"

definition bob_task :: task_args where
  "bob_task = example_task\<lparr>user := Some ''bob''\<rparr>"

definition null_id_users :: "json list" where
  "null_id_users =
     [JDict [(''id'', JNull), (''email'', JStr ''bob@x.com''), (''name'', JStr ''Bob'')],
      JDict [(''id'', JInt 4), (''email'', JStr ''other@x.com''), (''name'', JStr ''bob@x.com'')]]"

text \<open>The result of the tool when the user resolver finds nobody.\<close>

definition not_found_user :: "string \<Rightarrow> json" where
  "not_found_user usr = JDict [(''error'', JStr (''No users found matching '' @ quoted usr))]"









text \<open>A remote that knows one test case and one issue; issue \<open>A-2\<close> comes without an id.\<close>

definition keys_remote :: remote where
  "keys_remote log rq =
     (case rq of
        GET url params \<Rightarrow>
          if url = ''https://d/P/test_cases/TC-1'' then ok_response (JDict [(''id'', JInt 7)])
          else if url = ''https://d/P/issues/A-1'' then ok_response (JDict [(''id'', JInt 11)])
          else if url = ''https://d/P/issues/A-2'' then ok_response (JDict [(''key'', JStr ''A-2'')])
          else Reply (Response (Some ''404 Not Found'') None)
      | _ \<Rightarrow> ok_response (JDict [(''ok'', JBool True)]))"

text \<open>
  The forest as the section list gives it: the id and the parent of a section, the roots,
  and the children of an id (parent ids are compared as dictionary keys are).
\<close>

definition section_id :: "json \<Rightarrow> json" where
  "section_id s = (case s of JDict d \<Rightarrow> dict_get d ''id'' JNull | _ \<Rightarrow> JNull)"

definition parent_of :: "json \<Rightarrow> json" where
  "parent_of s = (case s of JDict d \<Rightarrow> dict_get d ''parent_id'' JNull | _ \<Rightarrow> JNull)"

definition roots_of :: "json list \<Rightarrow> json list" where
  "roots_of secs = filter (\<lambda>s. parent_of s = JNull) secs"

definition kids_of :: "json list \<Rightarrow> json \<Rightarrow> json list" where
  "kids_of secs sid =
     filter (\<lambda>t. parent_of t \<noteq> JNull \<and> hash_key (parent_of t) = hash_key sid) secs"

text \<open>A section the loop over the listing accepts: a dictionary whose parent id, if any, can be a key.\<close>

definition well_shaped :: "json \<Rightarrow> bool" where
  "well_shaped s =
     (case s of
        JDict d \<Rightarrow> dict_get d ''parent_id'' JNull = JNull \<or> hash_key (dict_get d ''parent_id'' JNull) \<noteq> None
      | _ \<Rightarrow> False)"

definition name_matches :: "string \<Rightarrow> json \<Rightarrow> bool" where
  "name_matches p s = (case s of JDict d \<Rightarrow> section_name d = lower p | _ \<Rightarrow> False)"

text \<open>The walk on the forest itself: the ids the path leads to from the candidates \<open>ss\<close>.\<close>

fun branch_ids :: "json list \<Rightarrow> json list \<Rightarrow> string list \<Rightarrow> json list" where
  "branch_ids secs ss [] = map section_id (filter (\<lambda>s. isinstance_int (section_id s)) ss)"
| "branch_ids secs ss (p # ps) =
     concat (map (\<lambda>s. if name_matches p s \<and> isinstance_int (section_id s)
                        then (if ps = [] then [section_id s]
                              else branch_ids secs (kids_of secs (section_id s)) ps)
                        else []) ss)"

text \<open>
  A branch that matches a path: one section per segment, the first among the candidates,
  each next one a child of the one before, every name equal to its segment and every id
  an integer.
\<close>

fun matches_branch :: "json list \<Rightarrow> json list \<Rightarrow> string list \<Rightarrow> json list \<Rightarrow> bool" where
  "matches_branch secs ss (p # ps) (s # rest) =
     (s \<in> set ss \<and> name_matches p s \<and> isinstance_int (section_id s)
      \<and> (if ps = [] then rest = [] else matches_branch secs (kids_of secs (section_id s)) ps rest))"
| "matches_branch secs ss path b = False"

text \<open>The children stored in \<open>hierarchy\<close> under a key.\<close>

definition kids_at :: "hierarchy \<Rightarrow> json \<Rightarrow> json list" where
  "kids_at h k = (case map_of h k of Some cs \<Rightarrow> cs | None \<Rightarrow> [])"

text \<open>A dangling section: its parent id is the id of no section of the listing.\<close>

definition dangling :: "json \<Rightarrow> json list \<Rightarrow> bool" where
  "dangling d secs =
     (parent_of d \<noteq> JNull \<and> (\<forall>s\<in>set secs. hash_key (section_id s) \<noteq> hash_key (parent_of d)))"

text \<open>
  The forest of the example: a root A, two children named B, a child named C under each;
  a stray section whose parent does not exist; a listing with a parent cycle reachable
  from its root; and a remote that answers every request with a given listing.
\<close>

definition abc_sections :: "json list" where
  "abc_sections =
     [JDict [(''id'', JInt 1), (''name'', JStr ''A'')],
      JDict [(''id'', JInt 2), (''name'', JStr ''B''), (''parent_id'', JInt 1)],
      JDict [(''id'', JInt 3), (''name'', JStr ''B''), (''parent_id'', JInt 1)],
      JDict [(''id'', JInt 4), (''name'', JStr ''C''), (''parent_id'', JInt 2)],
      JDict [(''id'', JInt 5), (''name'', JStr ''C''), (''parent_id'', JInt 3)]]"

definition stray_section :: json where
  "stray_section = JDict [(''id'', JInt 6), (''name'', JStr ''C''), (''parent_id'', JInt 77)]"

definition cyclic_sections :: "json list" where
  "cyclic_sections =
     [JDict [(''id'', JInt 1), (''name'', JStr ''a'')],
      JDict [(''id'', JInt 2), (''name'', JStr ''a''), (''parent_id'', JInt 1)],
      JDict [(''id'', JInt 1), (''name'', JStr ''a''), (''parent_id'', JInt 2)]]"

definition sections_remote :: "json list \<Rightarrow> remote" where
  "sections_remote secs log rq = ok_response (JList secs)"

text \<open>The ids the paths resolve to, one path after the other, as long as each resolves.\<close>

fun path_ids :: "remote \<Rightarrow> string \<Rightarrow> key \<Rightarrow> string list \<Rightarrow> request list \<Rightarrow> json list" where
  "path_ids R base proj [] log = []"
| "path_ids R base proj (path # paths) log =
     (case resolve_section_hierarchy_to_ids R base proj path log of
        (Inr ids, log1) \<Rightarrow> ids @ path_ids R base proj paths log1
      | (Inl e, log1) \<Rightarrow> [])"

text \<open>A remote with the sections A and its child B (id 5), and test cases of id 42.\<close>

definition testrun_remote :: remote where
  "testrun_remote log rq =
     (case rq of
        GET url params \<Rightarrow>
          if url = ''https://d/P/sections'' then
            ok_response (JList [JDict [(''id'', JInt 5), (''name'', JStr ''B''), (''parent_id'', JInt 1)],
                                JDict [(''id'', JInt 1), (''name'', JStr ''A'')]])
          else ok_response (JDict [(''id'', JInt 42)])
      | _ \<Rightarrow> ok_response (JDict [(''ok'', JBool True)]))"




text \<open>
  A description of a header segment, independent of the patterns of the decoder:
  \<^item> \<open>Link lead before zeros page after gap rel trail\<close> is a link whose URL is \<open>before\<close>, the
    parameter \<open>page=\<close> with the decimal numeral of \<open>page\<close> after \<open>zeros\<close> leading zeros, and
    \<open>after\<close>;
  \<^item> \<open>Pageless lead url gap rel trail\<close> is a link whose URL has no parameter at all;
  \<^item> \<open>Junk s\<close> is any other text.
\<close>

datatype segment =
    Link string string nat nat string string string string
  | Pageless string string string string string
  | Junk string

fun page_digits :: "segment \<Rightarrow> string" where
  "page_digits (Link lead before zeros page after gap rel trail) =
     replicate zeros CHR ''0'' @ str_nat page"
| "page_digits (Pageless lead url gap rel trail) = []"
| "page_digits (Junk s) = []"









section \<open>Properties of the pagination decoder\<close>


lemma digit_cases: "d < (10::nat) \<Longrightarrow> d = 0 \<or> d = 1 \<or> d = 2 \<or> d = 3 \<or> d = 4 \<or> d = 5 \<or> d = 6 \<or> d = 7 \<or> d = 8 \<or> d = 9"
  by arith


lemma is_digit_digit_char: "d < 10 \<Longrightarrow> is_digit (digit_char d)"
  using digit_cases [of d] by (auto simp: is_digit_def digit_char_def)


lemma str_nat_digits: "list_all is_digit (str_nat n)"
proof (induction n rule: str_nat.induct)
  case (1 n)
  show ?case
  proof (cases "n < 10")
    case True
    then show ?thesis by (simp add: str_nat.simps [of n] is_digit_digit_char)
  next
    case False
    then show ?thesis using "1.IH" by (simp add: str_nat.simps [of n] is_digit_digit_char)
  qed
qed

































lemma zeros_digits: "list_all is_digit (replicate z CHR ''0'')"
  by (simp add: list_all_iff is_digit_def)

lemma page_digits_digits: "list_all is_digit (page_digits s)"
  by (cases s) (simp_all add: zeros_digits str_nat_digits)
























section \<open>Properties of \<open>fr_create_task\<close>: the request body\<close>

lemma send_log: "send R rq log = (r, log') \<Longrightarrow> log' = log @ [rq]"
  by (auto simp: send_def split: reply.splits)

lemma request_json_log: "request_json R rq log = (r, log') \<Longrightarrow> log' = log @ [rq]"
  by (auto simp: request_json_def split: prod.splits sum.splits dest: send_log)

lemma resolve_issue_type_log:
  "resolve_issue_type R base p n payload log = (fl, log1) \<Longrightarrow>
   \<exists>new. log1 = log @ new \<and> list_all is_get new"
  unfolding resolve_issue_type_def Let_def
  by (auto simp: is_get_def split: if_splits prod.splits sum.splits dest!: request_json_log)

lemma resolve_issue_type_continue:
  "resolve_issue_type R base p n payload log = (Continue p1, log1) \<Longrightarrow> n \<noteq> [] \<Longrightarrow>
   \<exists>tid. tid \<noteq> JNull \<and> p1 = AList.update ''issue_type_id'' tid payload"
  unfolding resolve_issue_type_def Let_def handle_flow_def
  by (auto split: if_splits prod.splits sum.splits)

lemma resolve_assignee_log:
  "resolve_assignee R base p uo payload log = (fl, log1) \<Longrightarrow>
   \<exists>new. log1 = log @ new \<and> list_all is_get new"
  unfolding resolve_assignee_def Let_def
  by (auto simp: is_get_def split: option.splits if_splits prod.splits sum.splits dest!: request_json_log)

lemma resolve_assignee_continue:
  "resolve_assignee R base p uo payload log = (Continue p2, log2) \<Longrightarrow>
   (p2 = payload \<and> (uo = None \<or> uo = Some [] \<or> map_of payload ''assignee_id'' \<noteq> None)) \<or>
   (\<exists>aid u. aid \<noteq> JNull \<and> p2 = AList.update ''assignee_id'' aid payload
       \<and> map_of payload ''assignee_id'' = None \<and> uo = Some u \<and> u \<noteq> [])"
  unfolding resolve_assignee_def Let_def handle_flow_def
  by (auto split: option.splits if_splits prod.splits sum.splits)

lemma map_of_opt_update:
  "map_of (case x of Some d \<Rightarrow> AList.update key (f d) p | None \<Rightarrow> p) k =
     (if k = key \<and> x \<noteq> None then map_option f x else map_of p k)"
  by (cases x) (simp_all add: update_conv')

lemma map_of_core_payload:
  "map_of (core_payload a) k =
     (if k = ''due_date'' \<and> due_date a \<noteq> None then map_option JStr (due_date a)
      else if k = ''status'' \<and> status a \<noteq> None then map_option (\<lambda>s. JStr (status_value s)) (status a)
      else if k = ''assignee_id'' \<and> assignee_id a \<noteq> None then map_option JInt (assignee_id a)
      else if k = ''description'' \<and> description a \<noteq> None then map_option JStr (description a)
      else if k = ''title'' then Some (JStr (title a))
      else None)"
proof -
  have t: "[''title'' \<mapsto> JStr (title a)] k = (if k = ''title'' then Some (JStr (title a)) else None)"
    by simp
  show ?thesis
    unfolding core_payload_def Let_def
    by (simp only: map_of_opt_update map_of.simps fst_conv snd_conv t)
qed

lemma core_payload_title: "map_of (core_payload a) ''title'' = Some (JStr (title a))"
  by (simp add: map_of_core_payload)

lemma core_payload_description:
  "map_of (core_payload a) ''description'' = map_option JStr (description a)"
  by (cases "description a") (simp_all add: map_of_core_payload)

lemma core_payload_assignee_id:
  "map_of (core_payload a) ''assignee_id'' = map_option JInt (assignee_id a)"
  by (cases "assignee_id a") (simp_all add: map_of_core_payload)

lemma core_payload_status:
  "map_of (core_payload a) ''status'' = map_option (\<lambda>s. JStr (status_value s)) (status a)"
  by (cases "status a") (simp_all add: map_of_core_payload)

lemma core_payload_due_date:
  "map_of (core_payload a) ''due_date'' = map_option JStr (due_date a)"
  by (cases "due_date a") (simp_all add: map_of_core_payload)

lemma core_payload_issue_type_id: "map_of (core_payload a) ''issue_type_id'' = None"
  by (simp add: map_of_core_payload)


lemma map_of_merge_step:
  "map_of (merge_step p kv) k =
     (if fst kv \<in> protected_keys then map_of p k
      else if k = fst kv then Some (snd kv) else map_of p k)"
  by (simp add: merge_step_def update_conv')

lemma map_of_foldl_merge_step:
  "map_of (foldl merge_step p items) k =
     (if k \<in> protected_keys then map_of p k
      else (case map_of (rev items) k of Some v \<Rightarrow> Some v | None \<Rightarrow> map_of p k))"
proof (induction items arbitrary: p)
  case Nil
  then show ?case by simp
next
  case (Cons kv items)
  have "map_of (foldl merge_step p (kv # items)) k = map_of (foldl merge_step (merge_step p kv) items) k"
    by simp
  also have "\<dots> = (if k \<in> protected_keys then map_of (merge_step p kv) k
      else (case map_of (rev items) k of Some v \<Rightarrow> Some v | None \<Rightarrow> map_of (merge_step p kv) k))"
    by (rule Cons.IH)
  finally show ?case
    by (cases kv) (auto simp: map_of_merge_step map_add_def split: option.splits)
qed

lemma map_of_merge_additional:
  "map_of (merge_additional p extra) k =
     (if k \<in> protected_keys then map_of p k
      else (case map_of (rev (or_empty extra)) k of Some v \<Rightarrow> Some v | None \<Rightarrow> map_of p k))"
  by (cases extra) (auto simp: merge_additional_def or_empty_def map_of_foldl_merge_step)



lemma create_task_posted:
  assumes run: "fr_create_task cfg R a log = (res, log')"
    and post: "POST u b \<in> set log'" "POST u b \<notin> set log"
  shows "\<exists>tid. tid \<noteq> JNull \<and>
           (b = JDict (AList.update ''issue_type_id'' tid
                  (merge_additional (core_payload a) (additional_fields a)))
              \<and> (assignee_id a \<noteq> None \<or> user a = None \<or> user a = Some [])
            \<or> (\<exists>aid usr. aid \<noteq> JNull \<and> assignee_id a = None \<and> user a = Some usr \<and> usr \<noteq> []
                  \<and> b = JDict (AList.update ''assignee_id'' aid
                          (AList.update ''issue_type_id'' tid
                             (merge_additional (core_payload a) (additional_fields a))))))"
proof -
  let ?P = "merge_additional (core_payload a) (additional_fields a)"
  let ?base = "base_url cfg"
  have nm: "name_to_resolve a \<noteq> []"
    by (simp add: name_to_resolve_def split: option.splits)
  have cfgok: "\<not> not_configured cfg"
    using run post by (auto split: if_splits simp: fr_create_task_def)
  obtain f1 log1 where r1: "resolve_issue_type R ?base (project_identifier a) (name_to_resolve a) ?P log = (f1, log1)"
    by (cases "resolve_issue_type R ?base (project_identifier a) (name_to_resolve a) ?P log")
  from resolve_issue_type_log [OF r1] obtain new1 where
    l1: "log1 = log @ new1" "list_all is_get new1" by blast
  have nopost1: "POST u b \<notin> set log1"
    using l1 post(2) by (auto simp: list_all_iff is_get_def)
  show ?thesis
  proof (cases f1)
    case (Raise e)
    with run r1 cfgok have "log' = log1" by (simp add: fr_create_task_def Let_def)
    with nopost1 post show ?thesis by simp
  next
    case (Return j)
    with run r1 cfgok have "log' = log1" by (simp add: fr_create_task_def Let_def)
    with nopost1 post show ?thesis by simp
  next
    case (Continue p1)
    from resolve_issue_type_continue [OF r1 [unfolded Continue] nm] obtain tid where
      tid: "tid \<noteq> JNull" "p1 = AList.update ''issue_type_id'' tid ?P" by blast
    obtain f2 log2 where r2: "resolve_assignee R ?base (project_identifier a) (user a) p1 log1 = (f2, log2)"
      by (cases "resolve_assignee R ?base (project_identifier a) (user a) p1 log1")
    from resolve_assignee_log [OF r2] obtain new2 where
      l2: "log2 = log1 @ new2" "list_all is_get new2" by blast
    have nopost2: "POST u b \<notin> set log2"
      using l2 nopost1 by (auto simp: list_all_iff is_get_def)
    show ?thesis
    proof (cases f2)
      case (Raise e)
      with run r1 r2 Continue cfgok have "log' = log2" by (simp add: fr_create_task_def Let_def)
      with nopost2 post show ?thesis by simp
    next
      case (Return j)
      with run r1 r2 Continue cfgok have "log' = log2" by (simp add: fr_create_task_def Let_def)
      with nopost2 post show ?thesis by simp
    next
      case c2: (Continue p2)
      obtain r3 log3 where r3: "request_json R (POST (?base @ ''/'' @ str_key (project_identifier a) @ ''/issues'') (JDict p2)) log2 = (r3, log3)"
        by (cases "request_json R (POST (?base @ ''/'' @ str_key (project_identifier a) @ ''/issues'') (JDict p2)) log2")
      have l3: "log3 = log2 @ [POST (?base @ ''/'' @ str_key (project_identifier a) @ ''/issues'') (JDict p2)]"
        using request_json_log [OF r3] .
      have "log' = log3"
        using run r1 r2 r3 Continue c2 cfgok
        by (auto simp: fr_create_task_def Let_def split: sum.splits prod.splits)
      with l3 nopost2 post have b: "b = JDict p2" by auto
      have P1: "map_of p1 ''assignee_id'' = map_option JInt (assignee_id a)"
        using tid(2)
        by (simp add: update_conv' map_of_merge_additional core_payload_assignee_id protected_keys_def)
      from resolve_assignee_continue [OF r2 [unfolded c2]]
      show ?thesis
      proof
        assume "p2 = p1 \<and> (user a = None \<or> user a = Some [] \<or> map_of p1 ''assignee_id'' \<noteq> None)"
        with P1 have "p2 = p1" "assignee_id a \<noteq> None \<or> user a = None \<or> user a = Some []"
          by auto
        with b tid show ?thesis by blast
      next
        assume "\<exists>aid u. aid \<noteq> JNull \<and> p2 = AList.update ''assignee_id'' aid p1
                  \<and> map_of p1 ''assignee_id'' = None \<and> user a = Some u \<and> u \<noteq> []"
        then obtain aid usr where a: "aid \<noteq> JNull" "p2 = AList.update ''assignee_id'' aid p1"
          "map_of p1 ''assignee_id'' = None" "user a = Some usr" "usr \<noteq> []" by blast
        from a(3) tid(2) have "map_of ?P ''assignee_id'' = None"
          by (simp add: update_conv')
        then have "assignee_id a = None"
          by (simp add: map_of_merge_additional core_payload_assignee_id protected_keys_def)
        with a b tid show ?thesis by blast
      qed
    qed
  qed
qed



lemma posted_lookup:
  assumes run: "fr_create_task cfg R a log = (res, log')"
    and post: "POST u (JDict b) \<in> set log'" "POST u (JDict b) \<notin> set log"
  shows "(k \<noteq> ''issue_type_id'' \<and> k \<noteq> ''assignee_id'' \<longrightarrow>
            map_of b k = map_of (merge_additional (core_payload a) (additional_fields a)) k)
       \<and> (\<exists>tid. tid \<noteq> JNull \<and> map_of b ''issue_type_id'' = Some tid)
       \<and> (assignee_id a = None \<and> (user a = None \<or> user a = Some []) \<longrightarrow> map_of b ''assignee_id'' = None)
       \<and> (\<forall>n. assignee_id a = Some n \<longrightarrow> map_of b ''assignee_id'' = Some (JInt n))
       \<and> (assignee_id a = None \<and> (\<exists>usr. user a = Some usr \<and> usr \<noteq> []) \<longrightarrow>
            (\<exists>aid. aid \<noteq> JNull \<and> map_of b ''assignee_id'' = Some aid))"
proof -
  let ?P = "merge_additional (core_payload a) (additional_fields a)"
  have P: "map_of ?P ''assignee_id'' = map_option JInt (assignee_id a)"
    by (simp add: map_of_merge_additional core_payload_assignee_id protected_keys_def)
  from create_task_posted [OF run post] obtain tid where tid: "tid \<noteq> JNull"
    and b: "b = AList.update ''issue_type_id'' tid ?P
              \<and> (assignee_id a \<noteq> None \<or> user a = None \<or> user a = Some [])
          \<or> (\<exists>aid usr. aid \<noteq> JNull \<and> assignee_id a = None \<and> user a = Some usr \<and> usr \<noteq> []
                \<and> b = AList.update ''assignee_id'' aid (AList.update ''issue_type_id'' tid ?P))"
    by auto
  from b show ?thesis
  proof
    assume "b = AList.update ''issue_type_id'' tid ?P
              \<and> (assignee_id a \<noteq> None \<or> user a = None \<or> user a = Some [])"
    with tid P show ?thesis by (auto simp: update_conv')
  next
    assume "\<exists>aid usr. aid \<noteq> JNull \<and> assignee_id a = None \<and> user a = Some usr \<and> usr \<noteq> []
                \<and> b = AList.update ''assignee_id'' aid (AList.update ''issue_type_id'' tid ?P)"
    with tid P show ?thesis by (auto simp: update_conv')
  qed
qed




lemma unsupplied_task_run:
  "fr_create_task example_config example_remote unsupplied_task []
   = (Inr (JDict [(''ok'', JBool True)]),
      [GET ''https://d/P/project_issue_types'' [],
       GET ''https://d/P/users'' [(''q'', ''bob'')],
       POST ''https://d/P/issues''
         (JDict [(''title'', JStr ''t''), (''issue_type_id'', JInt 3), (''assignee_id'', JInt 1)])])"
  by code_simp

text \<open>
  C10 as stated fails for \<open>issue_type_id\<close> and \<open>assignee_id\<close>: with no issue type name and
  no assignee id given, and both keys present in \<open>additional_fields\<close>, the posted body
  still has both entries, filled in by the issue-type resolver and the user resolver.
\<close>

theorem create_task_unsupplied_counterexample:
  "issue_type_name unsupplied_task = None \<and> assignee_id unsupplied_task = None
   \<and> additional_fields unsupplied_task
       = Some [(''issue_type_id'', JInt 5), (''assignee_id'', JInt 9), (''status'', JStr ''blocked'')]
   \<and> snd (fr_create_task example_config example_remote unsupplied_task [])
       = [GET ''https://d/P/project_issue_types'' [],
          GET ''https://d/P/users'' [(''q'', ''bob'')],
          POST ''https://d/P/issues''
            (JDict [(''title'', JStr ''t''), (''issue_type_id'', JInt 3), (''assignee_id'', JInt 1)])]
   \<and> map_of [(''title'', JStr ''t''), (''issue_type_id'', JInt 3), (''assignee_id'', JInt 1)]
         ''issue_type_id'' \<noteq> None
   \<and> map_of [(''title'', JStr ''t''), (''issue_type_id'', JInt 3), (''assignee_id'', JInt 1)]
         ''assignee_id'' \<noteq> None"
  by (simp add: unsupplied_task_run) (simp add: unsupplied_task_def example_task_def)

text \<open>
  C10 (as amended). The filter does not look at the explicit arguments: whatever
  \<open>additional_fields\<close> holds, the posted body has no \<open>description\<close>, \<open>status\<close> or
  \<open>due_date\<close> entry when that argument is absent, and no \<open>assignee_id\<close> entry when
  neither an assignee id nor a user is given; when no assignee id but a user is given,
  the \<open>assignee_id\<close> entry is present, with the id found by the user resolver. The
  \<open>title\<close> entry is always the title argument and the \<open>issue_type_id\<close> entry is always
  present: it is the id found by the issue-type resolver.
\<close>

theorem create_task_unsupplied_fields:
  "\<forall>u b. POST u (JDict b) \<in> set (snd (fr_create_task cfg R a log)) \<and> POST u (JDict b) \<notin> set log \<longrightarrow>
      (description a = None \<longrightarrow> map_of b ''description'' = None)
    \<and> (status a = None \<longrightarrow> map_of b ''status'' = None)
    \<and> (due_date a = None \<longrightarrow> map_of b ''due_date'' = None)
    \<and> (assignee_id a = None \<and> (user a = None \<or> user a = Some []) \<longrightarrow> map_of b ''assignee_id'' = None)
    \<and> (assignee_id a = None \<and> (\<exists>usr. user a = Some usr \<and> usr \<noteq> []) \<longrightarrow>
         (\<exists>aid. aid \<noteq> JNull \<and> map_of b ''assignee_id'' = Some aid))
    \<and> map_of b ''title'' = Some (JStr (title a))
    \<and> (\<exists>tid. tid \<noteq> JNull \<and> map_of b ''issue_type_id'' = Some tid)"
proof (intro allI impI)
  fix u b
  assume p: "POST u (JDict b) \<in> set (snd (fr_create_task cfg R a log)) \<and> POST u (JDict b) \<notin> set log"
  obtain res log' where run: "fr_create_task cfg R a log = (res, log')"
    by (cases "fr_create_task cfg R a log")
  from p run have pp: "POST u (JDict b) \<in> set log'" "POST u (JDict b) \<notin> set log" by simp_all
  note L = posted_lookup [OF run pp]
  have core: "map_of b k = map_of (core_payload a) k"
    if "k \<in> protected_keys" "k \<noteq> ''issue_type_id''" "k \<noteq> ''assignee_id''" for k
    using L [of k] that by (simp add: map_of_merge_additional)
  have d: "map_of b ''description'' = map_option JStr (description a)"
    using core [of "''description''"] by (simp add: protected_keys_def core_payload_description)
  have s: "map_of b ''status'' = map_option (\<lambda>s. JStr (status_value s)) (status a)"
    using core [of "''status''"] by (simp add: protected_keys_def core_payload_status)
  have dd: "map_of b ''due_date'' = map_option JStr (due_date a)"
    using core [of "''due_date''"] by (simp add: protected_keys_def core_payload_due_date)
  have t: "map_of b ''title'' = Some (JStr (title a))"
    using core [of "''title''"] by (simp add: protected_keys_def core_payload_title)
  from L [of "''title''"] d s dd t
  show "(description a = None \<longrightarrow> map_of b ''description'' = None)
    \<and> (status a = None \<longrightarrow> map_of b ''status'' = None)
    \<and> (due_date a = None \<longrightarrow> map_of b ''due_date'' = None)
    \<and> (assignee_id a = None \<and> (user a = None \<or> user a = Some []) \<longrightarrow> map_of b ''assignee_id'' = None)
    \<and> (assignee_id a = None \<and> (\<exists>usr. user a = Some usr \<and> usr \<noteq> []) \<longrightarrow>
         (\<exists>aid. aid \<noteq> JNull \<and> map_of b ''assignee_id'' = Some aid))
    \<and> map_of b ''title'' = Some (JStr (title a))
    \<and> (\<exists>tid. tid \<noteq> JNull \<and> map_of b ''issue_type_id'' = Some tid)"
    by simp
qed

lemma status_only_task_run:
  "fr_create_task example_config example_remote status_only_task []
   = (Inr (JDict [(''ok'', JBool True)]),
      [GET ''https://d/P/project_issue_types'' [],
       POST ''https://d/P/issues'' (JDict [(''title'', JStr ''t''), (''issue_type_id'', JInt 3)])])"
  by code_simp

theorem create_task_unsupplied_fields_witness:
  "snd (fr_create_task example_config example_remote status_only_task [])
   = [GET ''https://d/P/project_issue_types'' [],
      POST ''https://d/P/issues'' (JDict [(''title'', JStr ''t''), (''issue_type_id'', JInt 3)])]
   \<and> status status_only_task = None
   \<and> additional_fields status_only_task = Some [(''status'', JStr ''blocked'')]
   \<and> map_of [(''title'', JStr ''t''), (''issue_type_id'', JInt 3)] ''status'' = None
   \<and> assignee_id unsupplied_task = None \<and> user unsupplied_task = Some ''bob''
   \<and> (\<exists>aid. aid \<noteq> JNull
          \<and> map_of [(''title'', JStr ''t''), (''issue_type_id'', JInt 3), (''assignee_id'', JInt 1)]
                ''assignee_id'' = Some aid)"
proof -
  let ?c = "[(''title'', JStr ''t''), (''issue_type_id'', JInt 3), (''assignee_id'', JInt 1)]"
  have ua: "assignee_id unsupplied_task = None"
    by (simp add: unsupplied_task_def example_task_def)
  have uu: "user unsupplied_task = Some ''bob''"
    by (simp add: unsupplied_task_def example_task_def)
  have "POST ''https://d/P/issues'' (JDict ?c)
          \<in> set (snd (fr_create_task example_config example_remote unsupplied_task []))
        \<and> POST ''https://d/P/issues'' (JDict ?c) \<notin> set []"
    by (simp add: unsupplied_task_run)
  moreover have "assignee_id unsupplied_task = None
                 \<and> (\<exists>usr. user unsupplied_task = Some usr \<and> usr \<noteq> [])"
    using ua uu by simp
  ultimately have as: "\<exists>aid. aid \<noteq> JNull \<and> map_of ?c ''assignee_id'' = Some aid"
    using create_task_unsupplied_fields [of example_config example_remote unsupplied_task "[]"]
    by blast
  let ?b = "[(''title'', JStr ''t''), (''issue_type_id'', JInt 3)]"
  have log: "snd (fr_create_task example_config example_remote status_only_task [])
             = [GET ''https://d/P/project_issue_types'' [], POST ''https://d/P/issues'' (JDict ?b)]"
    by (simp add: status_only_task_run)
  have st: "status status_only_task = None"
    by (simp add: status_only_task_def example_task_def)
  have af: "additional_fields status_only_task = Some [(''status'', JStr ''blocked'')]"
    by (simp add: status_only_task_def example_task_def)
  have "POST ''https://d/P/issues'' (JDict ?b)
          \<in> set (snd (fr_create_task example_config example_remote status_only_task []))
        \<and> POST ''https://d/P/issues'' (JDict ?b) \<notin> set []"
    by (simp add: log)
  with create_task_unsupplied_fields [of example_config example_remote status_only_task "[]"] st
  have "map_of ?b ''status'' = None"
    by blast
  with log st af ua uu as show ?thesis by (intro conjI)
qed

section \<open>Properties of the issue-type resolvers\<close>

text \<open>
  Both resolvers on a listing in which no name is the one asked for: the one inside
  \<open>fr_create_task\<close> returns the listing with its error, \<open>fr_get_issue_type_by_name\<close>
  the error alone.
\<close>

lemma match_issue_type_none:
  "\<forall>t\<in>set ts. \<exists>d. t = JDict d \<and> item_name d \<noteq> target \<Longrightarrow> match_issue_type ts target = Inr JNull"
  by (induction ts) auto

lemma first_issue_type_none:
  "\<forall>t\<in>set ts. \<exists>d. t = JDict d \<and> item_name d \<noteq> target \<Longrightarrow> first_issue_type ts target = Inr None"
  by (induction ts) auto

lemma create_task_issue_type_not_found:
  assumes "request_json R (GET (base @ ''/'' @ str_key proj @ ''/project_issue_types'') []) log
           = (Inr (resp, JDict d), log1)"
    and "dict_get d ''issue_types'' (JList []) = JList ts"
    and "\<forall>t\<in>set ts. \<exists>td. t = JDict td \<and> item_name td \<noteq> lower (strip name)"
    and "name \<noteq> []"
  shows "resolve_issue_type R base proj name payload log
         = (Return (JDict [(''error'', JStr (''Issue type '' @ quoted name @ '' not found'')),
                           (''details'', JDict d)]), log1)"
  using assms
  by (simp add: resolve_issue_type_def py_iter_def match_issue_type_none)

lemma get_issue_type_by_name_not_found:
  assumes "request_json R (GET (base_url cfg @ ''/'' @ str_key proj @ ''/issue_types'') []) log
           = (Inr (resp, JList ts), log1)"
    and "\<forall>t\<in>set ts. \<exists>td. t = JDict td \<and> item_name td \<noteq> lower (strip name)"
    and "\<not> not_configured cfg"
  shows "fr_get_issue_type_by_name cfg R proj name log
         = (Inr (JDict [(''error'', JStr (''Issue type '' @ quoted name @ '' not found''))]), log1)"
  using assms
  by (simp add: fr_get_issue_type_by_name_def get_issue_type_try_def first_issue_type_none)

text \<open>
  C7. Asked for a name that no issue type of the listing has, \<open>fr_get_issue_type_by_name\<close>
  answers with the error message alone, without the listing; the resolver inside
  \<open>fr_create_task\<close>, asked the same, attaches the listing it read under \<open>details\<close>.
\<close>

theorem issue_type_not_found_listing:
  "fr_get_issue_type_by_name example_config listing_remote (KStr ''P'') ''epic'' []
   = (Inr (JDict [(''error'', JStr ''Issue type 'epic' not found'')]),
      [GET ''https://d/P/issue_types'' []])
   \<and> fr_create_task example_config example_remote epic_task []
   = (Inr (JDict [(''error'', JStr ''Issue type 'epic' not found''),
                  (''details'', example_issue_types)]),
      [GET ''https://d/P/project_issue_types'' []])"
  by code_simp

section \<open>Properties of the user resolver\<close>

lemma first_email_match_find:
  "list_all is_user us \<Longrightarrow>
   first_email_match us (lower (strip q))
   = Inr (case find (field_matches ''email'' q) us of Some u \<Rightarrow> user_id u | None \<Rightarrow> JNull)"
proof (induction us)
  case Nil
  then show ?case by simp
next
  case (Cons u us)
  then obtain d where d: "u = JDict d" by (cases u) (auto simp: is_user_def)
  with Cons show ?case
    by (simp add: field_matches_def field_text_def user_id_def Let_def)
qed

lemma first_name_match_find:
  "list_all is_user us \<Longrightarrow>
   first_name_match us (lower (strip q))
   = Inr (case find (field_matches ''name'' q) us of Some u \<Rightarrow> user_id u | None \<Rightarrow> JNull)"
proof (induction us)
  case Nil
  then show ?case by simp
next
  case (Cons u us)
  then obtain d where d: "u = JDict d" by (cases u) (auto simp: is_user_def)
  with Cons show ?case
    by (simp add: field_matches_def field_text_def user_id_def Let_def)
qed

lemma find_user_id:
  "list_all is_user us \<Longrightarrow> find P us = Some u \<Longrightarrow> user_id u \<noteq> JNull"
proof -
  assume a: "list_all is_user us" "find P us = Some u"
  then have "u \<in> set us" by (auto simp: find_Some_iff)
  with a(1) have "is_user u" by (simp add: list_all_iff)
  then show ?thesis by (cases u) (auto simp: is_user_def user_id_def)
qed

lemma choose_user_tie_break:
  assumes "list_all is_user us" "us \<noteq> []"
  shows "choose_user (JList us) q = Inr (tie_break us q)"
proof -
  from assms obtain u rest where us: "us = u # rest" by (cases us) auto
  from assms us obtain d where d: "u = JDict d" by (cases u) (auto simp: is_user_def)
  show ?thesis
  proof (cases "find (field_matches ''email'' q) us")
    case (Some m)
    with find_user_id [OF assms(1) Some] show ?thesis
      using first_email_match_find [OF assms(1), of q]
      by (simp add: choose_user_def tie_break_def us [symmetric] Let_def us d split: list.splits)
  next
    case None
    note noemail = None
    show ?thesis
    proof (cases "find (field_matches ''name'' q) us")
      case (Some m)
      with find_user_id [OF assms(1) Some] noemail show ?thesis
        using first_email_match_find [OF assms(1), of q] first_name_match_find [OF assms(1), of q]
        by (simp add: choose_user_def tie_break_def Let_def us d)
    next
      case None
      with noemail show ?thesis
        using first_email_match_find [OF assms(1), of q] first_name_match_find [OF assms(1), of q]
        by (simp add: choose_user_def tie_break_def Let_def us d user_id_def)
    qed
  qed
qed

lemma tie_break_not_null:
  assumes "list_all is_user us" "us \<noteq> []"
  shows "tie_break us q \<noteq> JNull \<and> tie_break us q \<in> user_id ` set us"
proof -
  have hd: "user_id (hd us) \<noteq> JNull \<and> hd us \<in> set us"
    using assms by (cases us) (auto simp: is_user_def user_id_def split: json.splits)
  have f: "user_id u \<noteq> JNull \<and> u \<in> set us" if "find P us = Some u" for P u
    using find_user_id [OF assms(1) that] that by (auto simp: find_Some_iff)
  show ?thesis
    unfolding tie_break_def using hd f
    by (auto split: option.splits)
qed

lemma choose_user_empty: "choose_user (JList []) q = Inr JNull"
  by (simp add: choose_user_def)

lemma resolve_assignee_chosen:
  assumes "request_json R (GET (base @ ''/'' @ str_key proj @ ''/users'') [(''q'', usr)]) log
           = (Inr (resp, users_data), log1)"
    and "choose_user users_data usr = Inr chosen_id"
    and "usr \<noteq> []" "map_of payload ''assignee_id'' = None"
  shows "resolve_assignee R base proj (Some usr) payload log
         = (if chosen_id = JNull then (Return (not_found_user usr), log1)
            else (Continue (AList.update ''assignee_id'' chosen_id payload), log1))"
  using assms by (simp add: resolve_assignee_def not_found_user_def)

text \<open>
  C3 as stated fails: the resolver reports that nobody was found whenever the id it
  settles on is \<open>None\<close>, and a non-empty result can lead there. When the search answers
  with the one user \<open>{"email": "bob@x.com", "name": "Bob"}\<close>, who has no id, the name
  matches the query \<open>bob\<close>, the id taken from the user is \<open>None\<close>, the fallback to the first
  element gives \<open>None\<close> again, and the tool returns \<open>No users found matching 'bob'\<close>
  without posting anything. The same happens when the result is not a list, as with
  \<open>{"users": [...]}\<close>.
\<close>

theorem user_resolver_not_found_counterexample:
  "idless_users \<noteq> []
   \<and> choose_user (JList idless_users) ''bob'' = Inr JNull
   \<and> fr_create_task example_config idless_remote bob_task []
       = (Inr (not_found_user ''bob''),
          [GET ''https://d/P/project_issue_types'' [], GET ''https://d/P/users'' [(''q'', ''bob'')]])
   \<and> choose_user (JDict [(''users'', example_users)]) ''bob'' = Inr JNull"
  by (intro conjI; code_simp)

text \<open>
  C3 (as amended). When the user search answers with a list of users, each a dictionary
  carrying an id that is not \<open>None\<close>, the user resolver reports that nobody was found if
  and only if the list is empty; on a non-empty such list it always settles on the id of
  one of the users and stores it as the assignee.
\<close>

theorem user_resolver_not_found_iff_empty:
  assumes "request_json R (GET (base @ ''/'' @ str_key proj @ ''/users'') [(''q'', usr)]) log
           = (Inr (resp, JList us), log1)"
    and "list_all is_user us" and "usr \<noteq> []" and "map_of payload ''assignee_id'' = None"
  shows "(resolve_assignee R base proj (Some usr) payload log = (Return (not_found_user usr), log1)
            \<longleftrightarrow> us = [])
       \<and> (us \<noteq> [] \<longrightarrow>
            (\<exists>uid \<in> user_id ` set us. uid \<noteq> JNull
               \<and> choose_user (JList us) usr = Inr uid
               \<and> resolve_assignee R base proj (Some usr) payload log
                   = (Continue (AList.update ''assignee_id'' uid payload), log1)))"
proof (cases "us = []")
  case True
  with resolve_assignee_chosen [OF assms(1) _ assms(3,4), of JNull] show ?thesis
    by (simp add: choose_user_empty)
next
  case False
  from choose_user_tie_break [OF assms(2) False] have c: "choose_user (JList us) usr = Inr (tie_break us usr)" .
  from tie_break_not_null [OF assms(2) False]
  have n: "tie_break us usr \<noteq> JNull" "tie_break us usr \<in> user_id ` set us" by simp_all
  from resolve_assignee_chosen [OF assms(1) c assms(3,4)] n(1)
  have r: "resolve_assignee R base proj (Some usr) payload log
           = (Continue (AList.update ''assignee_id'' (tie_break us usr) payload), log1)" by simp
  from False c n r show ?thesis by auto
qed

lemma example_users_request:
  "request_json example_remote (GET (''https://d'' @ ''/'' @ str_key (KStr ''P'') @ ''/users'') [(''q'', ''bob'')]) []
   = (Inr (Response None (Some example_users),
           JList [JDict [(''id'', JInt 1), (''email'', JStr ''bob@x.com''), (''name'', JStr ''Bob'')]]),
      [GET ''https://d/P/users'' [(''q'', ''bob'')]])"
  by code_simp

theorem user_resolver_not_found_iff_empty_witness:
  "resolve_assignee example_remote ''https://d'' (KStr ''P'') (Some ''bob'') [(''title'', JStr ''t'')] []
   \<noteq> (Return (not_found_user ''bob''), [GET ''https://d/P/users'' [(''q'', ''bob'')]])
   \<and> list_all is_user [JDict [(''id'', JInt 1), (''email'', JStr ''bob@x.com''), (''name'', JStr ''Bob'')]]
   \<and> map_of [(''title'', JStr ''t'')] ''assignee_id'' = None"
proof -
  let ?us = "[JDict [(''id'', JInt 1), (''email'', JStr ''bob@x.com''), (''name'', JStr ''Bob'')]]"
  have u: "list_all is_user ?us" by (simp add: is_user_def dict_get_def)
  have q: "''bob'' \<noteq> []" by simp
  have p: "map_of [(''title'', JStr ''t'')] ''assignee_id'' = None" by simp
  from user_resolver_not_found_iff_empty [OF example_users_request u q p]
  show ?thesis using u p by simp
qed

text \<open>
  C4 as stated fails: the code strips the query and the fields before it compares them.
  For the query \<open>Bob@x.com\<close> followed by a blank, no e-mail and no name equals the query
  up to case, so the rule as stated gives the first user; the code gives the second,
  whose e-mail is the stripped query. Moreover a tier whose match has the id \<open>None\<close> is
  passed over: when the user with the matching e-mail has a null id and another user has
  the query as name, the code gives that other user, id 4, where the rule as stated
  gives the id of the e-mail match.
\<close>

theorem user_tie_break_counterexample:
  "choose_user (JList two_users) ''Bob@x.com '' = Inr (JInt 2)
   \<and> tie_break_as_stated two_users ''Bob@x.com '' = JInt 1
   \<and> choose_user (JList null_id_users) ''bob@x.com'' = Inr (JInt 4)
   \<and> tie_break_as_stated null_id_users ''bob@x.com'' = JNull"
  by (intro conjI; code_simp)

lemma find_filter_hd: "filter P xs = y # ys \<Longrightarrow> find P xs = Some y"
  by (induction xs) (auto split: if_splits)

text \<open>
  C4 (as amended). On a non-empty list of users, each a dictionary carrying an id that
  is not \<open>None\<close>, and for every query, the resolver returns the id of the first user
  whose e-mail, stripped and lowered, is not empty and equals the stripped and lowered
  query; failing that, of the first user whose name does; failing that, of the first
  user of the list. In particular, when exactly one user of such a list has such a
  matching e-mail, that user's id is chosen whatever the names and the positions are.
\<close>

theorem user_tie_break_normalised:
  "(list_all is_user us \<and> us \<noteq> [] \<longrightarrow> choose_user (JList us) q = Inr (tie_break us q))
   \<and> (\<forall>u. list_all is_user us \<and> filter (field_matches ''email'' q) us = [u] \<longrightarrow>
          choose_user (JList us) q = Inr (user_id u))"
proof (intro conjI allI impI)
  assume "list_all is_user us \<and> us \<noteq> []"
  then show "choose_user (JList us) q = Inr (tie_break us q)"
    using choose_user_tie_break by blast
next
  fix u
  assume a: "list_all is_user us \<and> filter (field_matches ''email'' q) us = [u]"
  then have ne: "us \<noteq> []" by auto
  from a have "find (field_matches ''email'' q) us = Some u" by (simp add: find_filter_hd)
  then have "tie_break us q = user_id u" by (simp add: tie_break_def)
  with a ne show "choose_user (JList us) q = Inr (user_id u)"
    using choose_user_tie_break by simp
qed

theorem user_tie_break_normalised_witness:
  "list_all is_user two_users \<and> two_users \<noteq> []
   \<and> choose_user (JList two_users) ''Bob@x.com '' = Inr (tie_break two_users ''Bob@x.com '')
   \<and> tie_break two_users ''Bob@x.com '' = JInt 2"
proof -
  have u: "list_all is_user two_users" by code_simp
  have n: "two_users \<noteq> []" by (simp add: two_users_def)
  have t: "tie_break two_users ''Bob@x.com '' = JInt 2" by code_simp
  from user_tie_break_normalised [of two_users "''Bob@x.com ''"] u n
  have "choose_user (JList two_users) ''Bob@x.com '' = Inr (tie_break two_users ''Bob@x.com '')"
    by blast
  with u n t show ?thesis by simp
qed

section \<open>Properties of the key-to-id resolvers\<close>















lemma keys_remote_link_ok_run:
  "fr_link_testcase_issues example_config keys_remote (KStr ''P'') [KStr ''TC-1'']
     [KStr ''A-1'', KStr ''A-1''] []
   = (Inr (JDict [(''ok'', JBool True)]),
      [GET ''https://d/P/test_cases/TC-1'' [], GET ''https://d/P/issues/A-1'' [],
       GET ''https://d/P/issues/A-1'' [],
       PUT ''https://d/P/test_cases/update_many''
         (JDict [(''ids'', JList [JInt 7]), (''test_case'', JDict [(''issue_ids'', JList [JInt 11, JInt 11])])])])"
  by code_simp


section \<open>Properties of the section-hierarchy resolver and of populate-test-run\<close>

lemma hash_key_idem: "hash_key j = Some k \<Longrightarrow> hash_key k = Some k"
  by (auto simp: hash_key_def split: json.splits)

lemma hierarchy_get_kids_at: "hash_key j = Some k \<Longrightarrow> hierarchy_get h j = kids_at h k"
  by (simp add: hierarchy_get_def kids_at_def)

lemma kids_at_update:
  "kids_at (AList.update k v h) k' = (if k' = k then v else kids_at h k')"
  by (simp add: kids_at_def update_conv')

lemma build_hierarchy_ok:
  "list_all well_shaped secs \<Longrightarrow>
   \<exists>h. build_hierarchy secs h0 r0 = Inr (h, r0 @ roots_of secs)
     \<and> (\<forall>k. kids_at h k
             = kids_at h0 k @ filter (\<lambda>t. parent_of t \<noteq> JNull \<and> hash_key (parent_of t) = Some k) secs)"
proof (induction secs arbitrary: h0 r0)
  case Nil
  then show ?case by (simp add: roots_of_def)
next
  case (Cons s secs)
  from Cons.prems obtain d where d: "s = JDict d" by (cases s) (auto simp: well_shaped_def)
  from Cons.prems have rest: "list_all well_shaped secs" by simp
  show ?case
  proof (cases "dict_get d ''parent_id'' JNull = JNull")
    case True
    from Cons.IH [OF rest, of h0 "r0 @ [s]"] obtain h where
      h: "build_hierarchy secs h0 (r0 @ [s]) = Inr (h, (r0 @ [s]) @ roots_of secs)"
         "\<forall>k. kids_at h k = kids_at h0 k @ filter (\<lambda>t. parent_of t \<noteq> JNull \<and> hash_key (parent_of t) = Some k) secs"
      by blast
    with True d show ?thesis
      by (auto simp: roots_of_def parent_of_def)
  next
    case False
    with Cons.prems d obtain k where k: "hash_key (dict_get d ''parent_id'' JNull) = Some k"
      by (auto simp: well_shaped_def)
    let ?h1 = "AList.update k (hierarchy_get h0 k @ [s]) h0"
    from Cons.IH [OF rest, of ?h1 r0] obtain h where
      h: "build_hierarchy secs ?h1 r0 = Inr (h, r0 @ roots_of secs)"
         "\<forall>k'. kids_at h k' = kids_at ?h1 k' @ filter (\<lambda>t. parent_of t \<noteq> JNull \<and> hash_key (parent_of t) = Some k') secs"
      by blast
    have g: "hierarchy_get h0 k = kids_at h0 k"
      using hash_key_idem [OF k] by (rule hierarchy_get_kids_at)
    have "build_hierarchy (s # secs) h0 r0 = Inr (h, r0 @ roots_of (s # secs))"
      using False d k h(1) by (simp add: roots_of_def parent_of_def)
    moreover have "kids_at h k' = kids_at h0 k' @ filter (\<lambda>t. parent_of t \<noteq> JNull \<and> hash_key (parent_of t) = Some k') (s # secs)" for k'
      using h(2) False d k g by (auto simp: kids_at_update parent_of_def)
    ultimately show ?thesis by blast
  qed
qed

lemma build_hierarchy_fail:
  "\<not> list_all well_shaped secs \<Longrightarrow> \<exists>e. build_hierarchy secs h0 r0 = Inl e"
proof (induction secs arbitrary: h0 r0)
  case Nil
  then show ?case by simp
next
  case (Cons s secs)
  show ?case
  proof (cases "well_shaped s")
    case False
    then show ?thesis
      by (cases s) (auto simp: well_shaped_def Let_def split: option.splits)
  next
    case True
    with Cons.prems have "\<not> list_all well_shaped secs" by simp
    from Cons.IH [OF this] True show ?thesis
      by (cases s) (auto simp: well_shaped_def Let_def split: option.splits)
  qed
qed

lemma build_hierarchy_get:
  assumes "list_all well_shaped secs"
  shows "\<exists>h. build_hierarchy secs [] [] = Inr (h, roots_of secs)
           \<and> (\<forall>sid. isinstance_int sid \<longrightarrow> hierarchy_get h sid = kids_of secs sid)"
proof -
  from build_hierarchy_ok [OF assms, of "[]" "[]"] obtain h where
    h: "build_hierarchy secs [] [] = Inr (h, roots_of secs)"
       "\<forall>k. kids_at h k = filter (\<lambda>t. parent_of t \<noteq> JNull \<and> hash_key (parent_of t) = Some k) secs"
    by (auto simp: kids_at_def)
  have "hierarchy_get h sid = kids_of secs sid" if "isinstance_int sid" for sid
  proof -
    from that obtain k where k: "hash_key sid = Some k"
      by (cases sid) (auto simp: isinstance_int_def hash_key_def)
    then show ?thesis using h(2) by (simp add: hierarchy_get_kids_at kids_of_def)
  qed
  with h(1) show ?thesis by blast
qed

lemma ids_of_dicts:
  "\<forall>s\<in>set ss. \<exists>d. s = JDict d \<Longrightarrow>
   ids_of ss = Inr (map section_id (filter (\<lambda>s. isinstance_int (section_id s)) ss))"
  by (induction ss) (auto simp: section_id_def)

lemma set_kids_of: "set (kids_of secs sid) \<subseteq> set secs"
  by (auto simp: kids_of_def)

lemma find_eq:
  assumes dicts: "\<forall>s\<in>set secs. \<exists>d. s = JDict d"
    and H: "\<forall>sid. isinstance_int sid \<longrightarrow> hierarchy_get h sid = kids_of secs sid"
  shows "set ss \<subseteq> set secs \<Longrightarrow> find_sections_by_path h ss path = Inr (branch_ids secs ss path)"
    and "set ss \<subseteq> set secs \<Longrightarrow> find_matching h p ps ss acc = Inr (acc @ branch_ids secs ss (p # ps))"
  using H
proof (induction h ss path and h p ps ss acc rule: find_sections_by_path_find_matching.induct)
  case (1 hierarchy sections_list)
  with dicts have "\<forall>s\<in>set sections_list. \<exists>d. s = JDict d" by blast
  then show ?case by (simp add: ids_of_dicts)
next
  case (2 hierarchy sections_list p ps)
  then show ?case by simp
next
  case (3 hierarchy p ps matching)
  then show ?case by simp
next
  case (4 hierarchy p ps sct rest matching)
  from "4.prems" dicts obtain d where d: "sct = JDict d" by auto
  have sid: "section_id sct = dict_get d ''id'' JNull" by (simp add: section_id_def d)
  have nm: "name_matches p sct = (section_name d = lower p)" by (simp add: name_matches_def d)
  from "4.prems" have rest: "set rest \<subseteq> set secs" by simp
  note Hh = "4.prems"(2)
  show ?case
  proof (cases "section_name d = lower p \<and> isinstance_int (dict_get d ''id'' JNull)")
    case False
    then have "find_matching hierarchy p ps (sct # rest) matching
               = find_matching hierarchy p ps rest matching"
      by (auto simp: d Let_def)
    also have "\<dots> = Inr (matching @ branch_ids secs rest (p # ps))"
      using False "4.IH"(4,5) [OF d] rest Hh by (auto simp: Let_def)
    finally show ?thesis using False by (auto simp: sid nm)
  next
    case True
    then have m: "section_name d = lower p" and i: "isinstance_int (dict_get d ''id'' JNull)" by simp_all
    show ?thesis
    proof (cases "ps = []")
      case True
      have "find_matching hierarchy p ps (sct # rest) matching
               = find_matching hierarchy p ps rest (matching @ [dict_get d ''id'' JNull])"
        using m i True by (simp add: d Let_def)
      also have "\<dots> = Inr ((matching @ [dict_get d ''id'' JNull]) @ branch_ids secs rest (p # ps))"
        using "4.IH"(1) [OF d m refl i True rest Hh] .
      finally show ?thesis using m i True by (simp add: sid nm)
    next
      case False
      let ?kids = "hierarchy_get hierarchy (dict_get d ''id'' JNull)"
      have k: "?kids = kids_of secs (dict_get d ''id'' JNull)" using Hh i by simp
      then have ks: "set ?kids \<subseteq> set secs" by (simp add: set_kids_of)
      have c: "find_sections_by_path hierarchy ?kids ps = Inr (branch_ids secs ?kids ps)"
        using "4.IH"(2) [OF d m refl i False ks Hh] .
      have "find_matching hierarchy p ps (sct # rest) matching
               = find_matching hierarchy p ps rest (matching @ branch_ids secs ?kids ps)"
        using m i False c by (simp add: d Let_def)
      also have "\<dots> = Inr ((matching @ branch_ids secs ?kids ps) @ branch_ids secs rest (p # ps))"
        using "4.IH"(3) [OF d m refl i False c rest Hh] .
      finally show ?thesis using m i False k by (simp add: sid nm)
    qed
  qed
qed

lemma matches_branch_Nil [simp]: "\<not> matches_branch secs ss path []"
  by (cases path) simp_all


lemma split_acc_not_empty: "split_acc c cur s \<noteq> []"
proof (induction s arbitrary: cur)
  case Nil
  show ?case by simp
next
  case (Cons x xs)
  show ?case
  proof (cases "x = c")
    case True
    then show ?thesis by simp
  next
    case False
    then show ?thesis using Cons [of "cur @ [x]"] by simp
  qed
qed

lemma well_shaped_dict: "list_all well_shaped secs \<Longrightarrow> \<forall>s\<in>set secs. \<exists>d. s = JDict d"
proof
  fix s
  assume "list_all well_shaped secs" "s \<in> set secs"
  then have "well_shaped s" by (simp add: list_all_iff)
  then show "\<exists>d. s = JDict d" by (cases s) (simp_all add: well_shaped_def)
qed

lemma set_roots_of: "set (roots_of secs) \<subseteq> set secs"
  by (auto simp: roots_of_def)

lemma resolve_branch_ids:
  assumes req: "request_json R (GET (base @ ''/'' @ str_key proj @ ''/sections'') []) log
                = (Inr (resp, JList secs), log1)"
    and ws: "list_all well_shaped secs"
    and pp: "hd (map strip (split_on CHR ''>'' section_path)) \<noteq> []"
  shows "resolve_section_hierarchy_to_ids R base proj section_path log
         = (Inr (branch_ids secs (roots_of secs) (map strip (split_on CHR ''>'' section_path))), log1)"
proof -
  let ?parts = "map strip (split_on CHR ''>'' section_path)"
  from build_hierarchy_get [OF ws] obtain h where
    h: "build_hierarchy secs [] [] = Inr (h, roots_of secs)"
       "\<forall>sid. isinstance_int sid \<longrightarrow> hierarchy_get h sid = kids_of secs sid" by blast
  have ne: "?parts \<noteq> []" by (simp add: split_on_def split_acc_not_empty)
  have "find_sections_by_path h (roots_of secs) ?parts = Inr (branch_ids secs (roots_of secs) ?parts)"
    using find_eq(1) [OF well_shaped_dict [OF ws] h(2) set_roots_of] .
  with req h(1) ne pp show ?thesis
    by (simp add: resolve_section_hierarchy_to_ids_def Let_def)
qed

lemma kids_of_dangling:
  assumes "dangling d (xs @ d # ys)" "s \<in> set (xs @ d # ys)"
  shows "kids_of (xs @ d # ys) (section_id s) = kids_of (xs @ ys) (section_id s)"
proof -
  from assms have "hash_key (parent_of d) \<noteq> hash_key (section_id s)"
    by (auto simp: dangling_def)
  then show ?thesis by (simp add: kids_of_def)
qed

lemma branch_ids_dangling:
  assumes dg: "dangling d (xs @ d # ys)"
  shows "set ss \<subseteq> set (xs @ d # ys) \<Longrightarrow>
         branch_ids (xs @ d # ys) ss path = branch_ids (xs @ ys) ss path"
proof (induction path arbitrary: ss)
  case Nil
  show ?case by simp
next
  case (Cons p ps)
  have "(if name_matches p s \<and> isinstance_int (section_id s)
          then (if ps = [] then [section_id s]
                else branch_ids (xs @ d # ys) (kids_of (xs @ d # ys) (section_id s)) ps)
          else [])
      = (if name_matches p s \<and> isinstance_int (section_id s)
          then (if ps = [] then [section_id s]
                else branch_ids (xs @ ys) (kids_of (xs @ ys) (section_id s)) ps)
          else [])" if "s \<in> set ss" for s
  proof -
    from that Cons.prems have m: "s \<in> set (xs @ d # ys)" by blast
    have k: "kids_of (xs @ d # ys) (section_id s) = kids_of (xs @ ys) (section_id s)"
      using kids_of_dangling [OF dg m] .
    have "set (kids_of (xs @ d # ys) (section_id s)) \<subseteq> set (xs @ d # ys)" by (rule set_kids_of)
    from Cons.IH [OF this] k show ?thesis by simp
  qed
  then show ?case by (simp cong: map_cong)
qed

lemma roots_of_dangling: "dangling d (xs @ d # ys) \<Longrightarrow> roots_of (xs @ d # ys) = roots_of (xs @ ys)"
  by (simp add: roots_of_def dangling_def)

lemma depth_enough:
  "max 1 (length path) \<le> depth \<Longrightarrow>
   find_sections_depth depth h ss path = Some (find_sections_by_path h ss path)"
  "length ps \<le> depth \<Longrightarrow>
   find_matching_depth depth h p ps ss acc = Some (find_matching h p ps ss acc)"
proof (induction depth h ss path and depth h p ps ss acc
       rule: find_sections_depth_find_matching_depth.induct)
  case (1 hierarchy sections_list remaining_path)
  then show ?case by simp
next
  case (2 depth hierarchy sections_list)
  then show ?case by simp
next
  case (3 depth hierarchy sections_list p ps)
  then show ?case by simp
next
  case (4 depth hierarchy p ps matching)
  then show ?case by simp
next
  case (5 depth hierarchy p ps sct rest matching)
  show ?case
  proof (cases sct)
    case (JDict d)
    show ?thesis
    proof (cases "section_name d = lower p \<and> isinstance_int (dict_get d ''id'' JNull)")
      case False
      with "5.IH"(4,5) [OF JDict] "5.prems" JDict show ?thesis by (auto simp: Let_def)
    next
      case True
      then have m: "section_name d = lower p" and i: "isinstance_int (dict_get d ''id'' JNull)"
        by simp_all
      show ?thesis
      proof (cases "ps = []")
        case True
        with "5.IH"(1) [OF JDict m refl i True "5.prems"] JDict m i show ?thesis by (simp add: Let_def)
      next
        case False
        with "5.prems" have dp: "max 1 (length ps) \<le> depth" by (cases ps) auto
        note c = "5.IH"(2) [OF JDict m refl i False dp]
        show ?thesis
        proof (cases "find_sections_by_path hierarchy (hierarchy_get hierarchy (dict_get d ''id'' JNull)) ps")
          case (Inl e)
          with c JDict m i False show ?thesis by (simp add: Let_def)
        next
          case (Inr child_matches)
          with c have c': "find_sections_depth depth hierarchy (hierarchy_get hierarchy (dict_get d ''id'' JNull)) ps
                           = Some (Inr child_matches)" by simp
          from "5.IH"(3) [OF JDict m refl i False c' refl "5.prems"] c' Inr JDict m i False
          show ?thesis by (simp add: Let_def)
        qed
      qed
    qed
  qed (simp_all)
qed






lemma resolve_dangling:
  assumes r1: "request_json R (GET (base @ ''/'' @ str_key proj @ ''/sections'') []) log
               = (Inr (resp, JList (xs @ d # ys)), log1)"
    and r2: "request_json R' (GET (base @ ''/'' @ str_key proj @ ''/sections'') []) log'
               = (Inr (resp', JList (xs @ ys)), log1')"
    and ws: "list_all well_shaped (xs @ d # ys)"
    and dg: "dangling d (xs @ d # ys)"
    and pp: "hd (map strip (split_on CHR ''>'' section_path)) \<noteq> []"
  shows "\<exists>ids. resolve_section_hierarchy_to_ids R base proj section_path log = (Inr ids, log1)
             \<and> resolve_section_hierarchy_to_ids R' base proj section_path log' = (Inr ids, log1')"
proof -
  let ?parts = "map strip (split_on CHR ''>'' section_path)"
  from ws have ws': "list_all well_shaped (xs @ ys)" by simp
  have a: "resolve_section_hierarchy_to_ids R base proj section_path log
           = (Inr (branch_ids (xs @ d # ys) (roots_of (xs @ d # ys)) ?parts), log1)"
    using r1 ws pp by (rule resolve_branch_ids)
  have b: "resolve_section_hierarchy_to_ids R' base proj section_path log'
           = (Inr (branch_ids (xs @ ys) (roots_of (xs @ ys)) ?parts), log1')"
    using r2 ws' pp by (rule resolve_branch_ids)
  have "branch_ids (xs @ d # ys) (roots_of (xs @ d # ys)) ?parts
        = branch_ids (xs @ ys) (roots_of (xs @ d # ys)) ?parts"
    using dg set_roots_of by (rule branch_ids_dangling)
  also have "\<dots> = branch_ids (xs @ ys) (roots_of (xs @ ys)) ?parts"
    by (simp only: roots_of_dangling [OF dg])
  finally show ?thesis using a b by simp
qed

text \<open>
  C8. Section-hierarchy resolution terminates on any section data. With the call stack
  made explicit, as many frames as the path has segments (one at least) are enough for
  the recursion to return, whatever the hierarchy and the sections are. A dangling
  section, whose parent id is the id of no section, contributes nothing and makes
  nothing fail: the result is the result for the listing without it. On a listing
  with a parent cycle that can be reached from a root, a path of five segments
  resolves to its one id.
\<close>

theorem section_resolution_terminates:
  "(max 1 (length path) \<le> depth \<longrightarrow>
      find_sections_depth depth h ss path = Some (find_sections_by_path h ss path))
   \<and> (request_json R (GET (base @ ''/'' @ str_key proj @ ''/sections'') []) log
         = (Inr (resp, JList (xs @ d # ys)), log1)
       \<and> request_json R' (GET (base @ ''/'' @ str_key proj @ ''/sections'') []) log'
         = (Inr (resp', JList (xs @ ys)), log1')
       \<and> list_all well_shaped (xs @ d # ys) \<and> dangling d (xs @ d # ys)
       \<and> hd (map strip (split_on CHR ''>'' section_path)) \<noteq> [] \<longrightarrow>
      (\<exists>ids. resolve_section_hierarchy_to_ids R base proj section_path log = (Inr ids, log1)
           \<and> resolve_section_hierarchy_to_ids R' base proj section_path log' = (Inr ids, log1')))
   \<and> resolve_section_hierarchy_to_ids (sections_remote cyclic_sections) ''https://d'' (KStr ''P'')
        ''a > a > a > a > a'' []
      = (Inr [JInt 1], [GET ''https://d/P/sections'' []])"
proof (intro conjI impI)
  assume "max 1 (length path) \<le> depth"
  then show "find_sections_depth depth h ss path = Some (find_sections_by_path h ss path)"
    by (rule depth_enough(1))
next
  assume a: "request_json R (GET (base @ ''/'' @ str_key proj @ ''/sections'') []) log
         = (Inr (resp, JList (xs @ d # ys)), log1)
       \<and> request_json R' (GET (base @ ''/'' @ str_key proj @ ''/sections'') []) log'
         = (Inr (resp', JList (xs @ ys)), log1')
       \<and> list_all well_shaped (xs @ d # ys) \<and> dangling d (xs @ d # ys)
       \<and> hd (map strip (split_on CHR ''>'' section_path)) \<noteq> []"
  then show "\<exists>ids. resolve_section_hierarchy_to_ids R base proj section_path log = (Inr ids, log1)
           \<and> resolve_section_hierarchy_to_ids R' base proj section_path log' = (Inr ids, log1')"
    using resolve_dangling [of R base proj log resp xs d ys log1 R' log' resp' log1' section_path]
    by blast
next
  show "resolve_section_hierarchy_to_ids (sections_remote cyclic_sections) ''https://d'' (KStr ''P'')
        ''a > a > a > a > a'' []
      = (Inr [JInt 1], [GET ''https://d/P/sections'' []])"
    by code_simp
qed

lemma stray_request:
  "request_json (sections_remote (abc_sections @ stray_section # []))
     (GET (''https://d'' @ ''/'' @ str_key (KStr ''P'') @ ''/sections'') []) []
   = (Inr (Response None (Some (JList (abc_sections @ stray_section # []))),
           JList (abc_sections @ stray_section # [])), [GET ''https://d/P/sections'' []])"
  by code_simp

lemma plain_request:
  "request_json (sections_remote (abc_sections @ []))
     (GET (''https://d'' @ ''/'' @ str_key (KStr ''P'') @ ''/sections'') []) []
   = (Inr (Response None (Some (JList (abc_sections @ []))),
           JList (abc_sections @ [])), [GET ''https://d/P/sections'' []])"
  by code_simp

lemma stray_run:
  "resolve_section_hierarchy_to_ids (sections_remote (abc_sections @ stray_section # []))
     ''https://d'' (KStr ''P'') ''A > B > C'' []
   = (Inr [JInt 4, JInt 5], [GET ''https://d/P/sections'' []])"
  by code_simp

theorem section_resolution_terminates_witness:
  "list_all well_shaped (abc_sections @ stray_section # [])
   \<and> dangling stray_section (abc_sections @ stray_section # [])
   \<and> resolve_section_hierarchy_to_ids (sections_remote (abc_sections @ [])) ''https://d'' (KStr ''P'')
        ''A > B > C'' []
      = resolve_section_hierarchy_to_ids (sections_remote (abc_sections @ stray_section # []))
          ''https://d'' (KStr ''P'') ''A > B > C'' []
   \<and> resolve_section_hierarchy_to_ids (sections_remote (abc_sections @ stray_section # []))
        ''https://d'' (KStr ''P'') ''A > B > C'' []
      = (Inr [JInt 4, JInt 5], [GET ''https://d/P/sections'' []])
   \<and> find_sections_depth 3 [] (roots_of abc_sections) [''A'', ''B'', ''C'']
      = Some (find_sections_by_path [] (roots_of abc_sections) [''A'', ''B'', ''C''])"
proof -
  have ws: "list_all well_shaped (abc_sections @ stray_section # [])" by code_simp
  have dg: "dangling stray_section (abc_sections @ stray_section # [])" by code_simp
  have pp: "hd (map strip (split_on CHR ''>'' ''A > B > C'')) \<noteq> []" by code_simp
  note T = section_resolution_terminates [where R = "sections_remote (abc_sections @ stray_section # [])"
      and R' = "sections_remote (abc_sections @ [])" and base = "''https://d''" and proj = "KStr ''P''"
      and log = "[]" and log' = "[]" and xs = abc_sections and d = stray_section and ys = "[]"
      and section_path = "''A > B > C''" and depth = 3 and path = "[''A'', ''B'', ''C'']"
      and h = "[]" and ss = "roots_of abc_sections"]
  from T stray_request plain_request ws dg pp
  have "\<exists>ids. resolve_section_hierarchy_to_ids (sections_remote (abc_sections @ stray_section # []))
                 ''https://d'' (KStr ''P'') ''A > B > C'' [] = (Inr ids, [GET ''https://d/P/sections'' []])
             \<and> resolve_section_hierarchy_to_ids (sections_remote (abc_sections @ []))
                 ''https://d'' (KStr ''P'') ''A > B > C'' [] = (Inr ids, [GET ''https://d/P/sections'' []])"
    by blast
  then have eq: "resolve_section_hierarchy_to_ids (sections_remote (abc_sections @ [])) ''https://d'' (KStr ''P'')
        ''A > B > C'' []
      = resolve_section_hierarchy_to_ids (sections_remote (abc_sections @ stray_section # []))
          ''https://d'' (KStr ''P'') ''A > B > C'' []"
    by auto
  have "max 1 (length [''A'', ''B'', ''C'']) \<le> (3::nat)" by simp
  with T have dp: "find_sections_depth 3 [] (roots_of abc_sections) [''A'', ''B'', ''C'']
      = Some (find_sections_by_path [] (roots_of abc_sections) [''A'', ''B'', ''C''])"
    by blast
  from ws dg eq dp show ?thesis by (simp only: stray_run)
qed

lemma resolve_section_hierarchy_log:
  "resolve_section_hierarchy_to_ids R base proj path log = (r, log1) \<Longrightarrow>
   \<exists>new. log1 = log @ new \<and> list_all is_get new"
  unfolding resolve_section_hierarchy_to_ids_def Let_def
  by (auto simp: is_get_def split: if_splits prod.splits sum.splits json.splits
      dest!: request_json_log)

lemma resolve_section_paths_log:
  "resolve_section_paths R base proj paths acc log = (fl, log') \<Longrightarrow>
   \<exists>new. log' = log @ new \<and> list_all is_get new"
proof (induction paths arbitrary: acc log)
  case Nil
  then show ?case by simp
next
  case (Cons path paths)
  obtain r log1 where r: "resolve_section_hierarchy_to_ids R base proj path log = (r, log1)"
    by (cases "resolve_section_hierarchy_to_ids R base proj path log")
  from resolve_section_hierarchy_log [OF r] obtain new1 where
    n1: "log1 = log @ new1" "list_all is_get new1" by blast
  show ?case
  proof (cases r)
    case (Inl e)
    with Cons.prems r have "log' = log1" by simp
    with n1 show ?thesis by blast
  next
    case (Inr ids)
    with Cons.prems r have "resolve_section_paths R base proj paths (acc @ map py_str ids) log1 = (fl, log')"
      by simp
    from Cons.IH [OF this] obtain new2 where "log' = log1 @ new2" "list_all is_get new2" by blast
    with n1 have "log' = log @ (new1 @ new2)" "list_all is_get (new1 @ new2)" by simp_all
    then show ?thesis by blast
  qed
qed

lemma resolve_section_paths_continue:
  "resolve_section_paths R base proj paths acc log = (Continue r, log') \<Longrightarrow>
   r = acc @ map py_str (path_ids R base proj paths log)"
proof (induction paths arbitrary: acc log)
  case Nil
  then show ?case by simp
next
  case (Cons path paths)
  obtain x log1 where x: "resolve_section_hierarchy_to_ids R base proj path log = (x, log1)"
    by (cases "resolve_section_hierarchy_to_ids R base proj path log")
  show ?case
  proof (cases x)
    case (Inl e)
    with Cons.prems x show ?thesis
      by (auto simp: handle_flow_def split: sum.splits)
  next
    case (Inr ids)
    with Cons.prems x have "resolve_section_paths R base proj paths (acc @ map py_str ids) log1 = (Continue r, log')"
      by simp
    from Cons.IH [OF this] x Inr show ?thesis by simp
  qed
qed

lemma resolve_test_case_keys_log:
  "resolve_test_case_keys R base proj ks acc log = (fl, log') \<Longrightarrow>
   \<exists>new. log' = log @ new \<and> list_all is_get new"
proof (induction ks arbitrary: acc log)
  case Nil
  then show ?case by simp
next
  case (Cons k ks)
  let ?rq = "GET (base @ ''/'' @ str_key proj @ ''/test_cases/'' @ str_key k) []"
  obtain x log1 where x: "request_json R ?rq log = (x, log1)"
    by (cases "request_json R ?rq log")
  then have l1: "log1 = log @ [?rq]" by (rule request_json_log)
  have g: "list_all is_get [?rq]" by (simp add: is_get_def)
  show ?case
  proof (cases "\<exists>resp d. x = Inr (resp, JDict d) \<and> dict_has d ''id''")
    case True
    then obtain resp d where xd: "x = Inr (resp, JDict d)" "dict_has d ''id''" by blast
    with Cons.prems x have "resolve_test_case_keys R base proj ks (acc @ [py_str (dict_get d ''id'' JNull)]) log1 = (fl, log')"
      by simp
    from Cons.IH [OF this] obtain new2 where "log' = log1 @ new2" "list_all is_get new2" by blast
    with l1 g have "log' = log @ (?rq # new2)" "list_all is_get (?rq # new2)" by simp_all
    then show ?thesis by blast
  next
    case False
    with Cons.prems x have "log' = log1"
      by (auto split: sum.splits json.splits if_splits)
    with l1 g show ?thesis by blast
  qed
qed

lemma testrun_put:
  assumes run: "fr_add_testcases_to_testrun cfg R proj test_run_id tks paths subtree sids frule log
                = (res, log')"
    and put: "PUT u b \<in> set log'" "PUT u b \<notin> set log"
  shows "\<exists>tc log1. resolve_test_case_keys R (base_url cfg) proj tks [] log = (Continue tc, log1)
           \<and> b = JDict [(''filter_rule'', JList (or_empty frule)),
                        (''test_case_ids'', JList (map JStr tc)),
                        (''section_subtree_ids'',
                         JList (map JStr (map py_str (path_ids R (base_url cfg) proj (or_empty paths) log1)
                                          @ map str_key (or_empty subtree)))),
                        (''section_ids'', JList (map JStr (map str_key (or_empty sids))))]"
proof -
  let ?base = "base_url cfg"
  have cfgok: "\<not> not_configured cfg"
    using run put by (auto simp: fr_add_testcases_to_testrun_def split: if_splits)
  obtain f1 log1 where r1: "resolve_test_case_keys R ?base proj tks [] log = (f1, log1)"
    by (cases "resolve_test_case_keys R ?base proj tks [] log")
  from resolve_test_case_keys_log [OF r1] obtain new1 where
    l1: "log1 = log @ new1" "list_all is_get new1" by blast
  have np1: "PUT u b \<notin> set log1"
    using l1 put(2) by (auto simp: list_all_iff is_get_def)
  show ?thesis
  proof (cases f1)
    case (Raise e)
    with run r1 cfgok have "log' = log1" by (simp add: fr_add_testcases_to_testrun_def Let_def)
    with np1 put show ?thesis by simp
  next
    case (Return j)
    with run r1 cfgok have "log' = log1" by (simp add: fr_add_testcases_to_testrun_def Let_def)
    with np1 put show ?thesis by simp
  next
    case (Continue tc)
    obtain f2 log2 where r2: "resolve_section_paths R ?base proj (or_empty paths) [] log1 = (f2, log2)"
      by (cases "resolve_section_paths R ?base proj (or_empty paths) [] log1")
    from resolve_section_paths_log [OF r2] obtain new2 where
      l2: "log2 = log1 @ new2" "list_all is_get new2" by blast
    have np2: "PUT u b \<notin> set log2"
      using l2 np1 by (auto simp: list_all_iff is_get_def)
    show ?thesis
    proof (cases f2)
      case (Raise e)
      with run r1 r2 Continue cfgok have "log' = log2"
        by (simp add: fr_add_testcases_to_testrun_def Let_def)
      with np2 put show ?thesis by simp
    next
      case (Return j)
      with run r1 r2 Continue cfgok have "log' = log2"
        by (simp add: fr_add_testcases_to_testrun_def Let_def)
      with np2 put show ?thesis by simp
    next
      case c2: (Continue rs)
      let ?payload = "testrun_payload frule tc rs subtree sids"
      let ?url = "?base @ ''/'' @ str_key proj @ ''/test_runs/'' @ str_key test_run_id @ ''/test_cases''"
      obtain r3 log3 where r3: "request_json R (PUT ?url ?payload) log2 = (r3, log3)"
        by (cases "request_json R (PUT ?url ?payload) log2")
      have l3: "log3 = log2 @ [PUT ?url ?payload]" using request_json_log [OF r3] .
      have "log' = log3"
        using run r1 r2 r3 Continue c2 cfgok
        by (auto simp: fr_add_testcases_to_testrun_def Let_def split: sum.splits prod.splits)
      with l3 np2 put have b: "b = ?payload" by auto
      from resolve_section_paths_continue [OF r2 [unfolded c2]]
      have "rs = map py_str (path_ids R ?base proj (or_empty paths) log1)" by simp
      with b r1 Continue show ?thesis
        by (simp add: testrun_payload_def)
    qed
  qed
qed

text \<open>
  C6. In populate-test-run, the body of the PUT has under \<open>section_subtree_ids\<close> the
  ids resolved from the hierarchy paths, path after path in the order given, followed
  by the ids the caller supplied, every one of them as a string and none removed; the
  filter rule and the section ids are passed on as given, and an absent filter rule,
  list of subtree ids, list of section ids or list of paths counts as the empty list.
  With the path \<open>A > B\<close> resolving to 5 and the supplied id 7 the list is
  \<open>["5", "7"]\<close> (the worked example that follows).
\<close>

theorem testrun_section_subtree_ids:
  "(\<forall>u b. PUT u b \<in> set (snd (fr_add_testcases_to_testrun cfg R proj test_run_id tks paths subtree
                                      sids frule log))
          \<and> PUT u b \<notin> set log \<longrightarrow>
      (\<exists>tc log1. resolve_test_case_keys R (base_url cfg) proj tks [] log = (Continue tc, log1)
           \<and> b = JDict [(''filter_rule'', JList (or_empty frule)),
                        (''test_case_ids'', JList (map JStr tc)),
                        (''section_subtree_ids'',
                         JList (map JStr (map py_str (path_ids R (base_url cfg) proj (or_empty paths) log1)
                                          @ map str_key (or_empty subtree)))),
                        (''section_ids'', JList (map JStr (map str_key (or_empty sids))))]))
   \<and> or_empty (None :: json list option) = []
   \<and> or_empty (None :: key list option) = []
   \<and> or_empty (None :: string list option) = []"
proof (intro conjI allI impI)
  fix u b
  assume p: "PUT u b \<in> set (snd (fr_add_testcases_to_testrun cfg R proj test_run_id tks paths subtree
                                      sids frule log))
          \<and> PUT u b \<notin> set log"
  obtain res log' where run: "fr_add_testcases_to_testrun cfg R proj test_run_id tks paths subtree
                                      sids frule log = (res, log')"
    by (cases "fr_add_testcases_to_testrun cfg R proj test_run_id tks paths subtree sids frule log")
  with p have "PUT u b \<in> set log'" "PUT u b \<notin> set log" by simp_all
  from testrun_put [OF run this]
  show "\<exists>tc log1. resolve_test_case_keys R (base_url cfg) proj tks [] log = (Continue tc, log1)
           \<and> b = JDict [(''filter_rule'', JList (or_empty frule)),
                        (''test_case_ids'', JList (map JStr tc)),
                        (''section_subtree_ids'',
                         JList (map JStr (map py_str (path_ids R (base_url cfg) proj (or_empty paths) log1)
                                          @ map str_key (or_empty subtree)))),
                        (''section_ids'', JList (map JStr (map str_key (or_empty sids))))]" .
qed (simp_all add: or_empty_def)

lemma testrun_example_run:
  "fr_add_testcases_to_testrun example_config testrun_remote (KStr ''P'') (KInt 9) [KStr ''TC-1'']
     (Some [''A > B'']) (Some [KInt 7]) None None []
   = (Inr (JDict [(''ok'', JBool True)]),
      [GET ''https://d/P/test_cases/TC-1'' [], GET ''https://d/P/sections'' [],
       PUT ''https://d/P/test_runs/9/test_cases''
         (JDict [(''filter_rule'', JList []),
                 (''test_case_ids'', JList [JStr ''42'']),
                 (''section_subtree_ids'', JList [JStr ''5'', JStr ''7'']),
                 (''section_ids'', JList [])])])"
  by code_simp

lemma testrun_example_paths:
  "path_ids testrun_remote (base_url example_config) (KStr ''P'') [''A > B'']
     [GET ''https://d/P/test_cases/TC-1'' []] = [JInt 5]"
  by code_simp

lemma testrun_example_keys:
  "resolve_test_case_keys testrun_remote (base_url example_config) (KStr ''P'') [KStr ''TC-1''] [] []
   = (Continue [''42''], [GET ''https://d/P/test_cases/TC-1'' []])"
  by code_simp

theorem testrun_section_subtree_ids_witness:
  "snd (fr_add_testcases_to_testrun example_config testrun_remote (KStr ''P'') (KInt 9) [KStr ''TC-1'']
          (Some [''A > B'']) (Some [KInt 7]) None None [])
   = [GET ''https://d/P/test_cases/TC-1'' [], GET ''https://d/P/sections'' [],
      PUT ''https://d/P/test_runs/9/test_cases''
        (JDict [(''filter_rule'', JList []),
                (''test_case_ids'', JList [JStr ''42'']),
                (''section_subtree_ids'', JList [JStr ''5'', JStr ''7'']),
                (''section_ids'', JList [])])]
   \<and> path_ids testrun_remote (base_url example_config) (KStr ''P'') [''A > B'']
        [GET ''https://d/P/test_cases/TC-1'' []] = [JInt 5]
   \<and> map JStr (map py_str (path_ids testrun_remote (base_url example_config) (KStr ''P'')
                               (or_empty (Some [''A > B''])) [GET ''https://d/P/test_cases/TC-1'' []])
                @ map str_key (or_empty (Some [KInt 7])))
      = [JStr ''5'', JStr ''7'']"
proof -
  let ?b = "JDict [(''filter_rule'', JList []),
                (''test_case_ids'', JList [JStr ''42'']),
                (''section_subtree_ids'', JList [JStr ''5'', JStr ''7'']),
                (''section_ids'', JList [])]"
  let ?u = "''https://d/P/test_runs/9/test_cases''"
  have p: "PUT ?u ?b \<in> set (snd (fr_add_testcases_to_testrun example_config testrun_remote (KStr ''P'')
                      (KInt 9) [KStr ''TC-1''] (Some [''A > B'']) (Some [KInt 7]) None None []))
           \<and> PUT ?u ?b \<notin> set []"
    by (simp add: testrun_example_run)
  note T = testrun_section_subtree_ids [where cfg = example_config and R = testrun_remote
      and proj = "KStr ''P''" and test_run_id = "KInt 9" and tks = "[KStr ''TC-1'']"
      and paths = "Some [''A > B'']" and subtree = "Some [KInt 7]" and sids = None and frule = None
      and log = "[]"]
  from T [THEN conjunct1, rule_format, OF p]
  have "map JStr (map py_str (path_ids testrun_remote (base_url example_config) (KStr ''P'')
                               (or_empty (Some [''A > B''])) [GET ''https://d/P/test_cases/TC-1'' []])
                @ map str_key (or_empty (Some [KInt 7])))
      = [JStr ''5'', JStr ''7'']"
    by (auto simp: testrun_example_keys simp del: resolve_test_case_keys.simps)
  moreover have "snd (fr_add_testcases_to_testrun example_config testrun_remote (KStr ''P'') (KInt 9)
          [KStr ''TC-1''] (Some [''A > B'']) (Some [KInt 7]) None None [])
   = [GET ''https://d/P/test_cases/TC-1'' [], GET ''https://d/P/sections'' [], PUT ?u ?b]"
    by (simp only: testrun_example_run snd_conv)
  ultimately show ?thesis using testrun_example_paths by (intro conjI)

qed

end
